theory Spec2Isabelle
  imports Complex_Main "HOL-Library.Word" "HOL-Library.List_Lexorder"
begin

section \<open>JavaScript values used by both components\<close>

text \<open>
  A JavaScript string is a sequence of 16-bit code units; \<open>length\<close> counts code units, as
  \<^verbatim>\<open>val.length\<close> does, and the lexicographic order on lists of code units is the order of
  the \<^verbatim>\<open><\<close> operator on strings.
\<close>

type_synonym jschar = "16 word"
type_synonym jsstring = "jschar list"

text \<open>An ASCII literal as a JavaScript string.\<close>

definition js :: "string \<Rightarrow> jsstring" where
  "js s = map (\<lambda>c. of_nat (of_char c)) s"

text \<open>
  What a \<^verbatim>\<open>throw\<close> carries: the \<^verbatim>\<open>Error\<close> objects the code constructs, with
  their message, and the \<^verbatim>\<open>TypeError\<close> of a property read on \<^verbatim>\<open>null\<close> or
  \<^verbatim>\<open>undefined\<close>.
\<close>

datatype js_error = Error string | TypeError

section \<open>The document settings page\<close>

subsection \<open>Remote calls\<close>

datatype EngineCode = python2 | python3

text \<open>
  The calls that leave the page, in the order they are issued. A remote call is a promise:
  it resolves or it rejects, and which of the two is the environment's choice.
\<close>

datatype remote_call =
    SaveEngine "EngineCode option"
  | SaveLocale "jsstring option"
  | ForceReload
  | ReportError

datatype outcome = Resolved | Rejected

text \<open>
  The part of the page's state the two handlers read and write: the stored \<^verbatim>\<open>engine\<close>
  and \<^verbatim>\<open>locale\<close> properties of \<^verbatim>\<open>documentSettingsJson\<close> and the trace of calls issued.
\<close>

record doc_settings =
  engine :: "EngineCode option"
  locale_prop :: "jsstring option"
  calls :: "remote_call list"

text \<open>
  Modelled from the spec: \<^verbatim>\<open>saveOnly\<close> of \<^verbatim>\<open>KoSaveableObservable\<close>
  (app/client/models/modelUtil) is not among the sources. The spec's observable "supports a
  save operation that persists the value remotely", and a write is a "full-field replacement
  round-tripped through a remote save call": the call is issued, and the stored value is
  replaced when the call resolves.
\<close>

definition saveOnly_engine ::
  "outcome \<Rightarrow> EngineCode option \<Rightarrow> doc_settings \<Rightarrow> outcome \<times> doc_settings" where
  "saveOnly_engine res val s =
     (case res of
        Resolved \<Rightarrow> (Resolved, s\<lparr>engine := val, calls := calls s @ [SaveEngine val]\<rparr>)
      | Rejected \<Rightarrow> (Rejected, s\<lparr>calls := calls s @ [SaveEngine val]\<rparr>))"

definition forceReload :: "outcome \<Rightarrow> doc_settings \<Rightarrow> outcome \<times> doc_settings" where
  "forceReload res s = (res, s\<lparr>calls := calls s @ [ForceReload]\<rparr>)"

subsection \<open>Changing the engine\<close>

text \<open>
  \<^verbatim>\<open>_doSetEngine\<close>: the comparison with the stored value, then two awaited calls. An
  \<^verbatim>\<open>await\<close> on a rejected promise throws, so a rejected save ends the function before
  \<^verbatim>\<open>forceReload\<close> is reached. The two outcomes are those of the save and of the reload.
\<close>

definition doSetEngine ::
  "outcome \<Rightarrow> outcome \<Rightarrow> EngineCode option \<Rightarrow> doc_settings \<Rightarrow> outcome \<times> doc_settings" where
  "doSetEngine save_res reload_res val s =
     (if engine s \<noteq> val then
        (case saveOnly_engine save_res val s of
           (Rejected, s') \<Rightarrow> (Rejected, s')
         | (Resolved, s') \<Rightarrow> forceReload reload_res s')
      else (Resolved, s))"

text \<open>
  Modelled from the spec: \<^verbatim>\<open>confirmModal\<close> (app/client/ui2018/modals) is not among the
  sources. The spec's "engine change requires user confirmation (modal) before committing":
  the callback runs when the user confirms, and not otherwise.
\<close>

definition setEngine ::
  "bool \<Rightarrow> outcome \<Rightarrow> outcome \<Rightarrow> EngineCode option \<Rightarrow> doc_settings \<Rightarrow> outcome \<times> doc_settings" where
  "setEngine confirmed save_res reload_res val s =
     (if confirmed then doSetEngine save_res reload_res val s else (Resolved, s))"

text \<open>The calls an operation added to the trace.\<close>

definition issued :: "doc_settings \<Rightarrow> 'a \<times> doc_settings \<Rightarrow> remote_call list" where
  "issued s r = drop (length (calls s)) (calls (snd r))"

subsection \<open>The locale picker\<close>

text \<open>
  An entry of \<^verbatim>\<open>locales\<close> (app/common/Locales, not among the sources: the list is a
  parameter) and the \<^verbatim>\<open>LocaleItem\<close> built from it. The field \<^verbatim>\<open>locale\<close> of an item
  is optional in its type (\<^verbatim>\<open>locale?: string\<close>).
\<close>

record locale_entry =
  name :: jsstring
  code :: jsstring

record LocaleItem =
  item_value :: jsstring
  label :: jsstring
  item_locale :: "jsstring option"
  cleanText :: jsstring

text \<open>
  \<^verbatim>\<open>locales.map(l => ({value: l.name, label: l.name, locale: l.code, cleanText: ...}))\<close>.
  The parameter \<open>clean\<close> stands for \<^verbatim>\<open>s.trim().toLowerCase()\<close>, a function of the
  JavaScript runtime.
\<close>

definition locale_item :: "(jsstring \<Rightarrow> jsstring) \<Rightarrow> locale_entry \<Rightarrow> LocaleItem" where
  "locale_item clean l =
     \<lparr>item_value = name l, label = name l, item_locale = Some (code l), cleanText = clean (name l)\<rparr>"

text \<open>
  \<^verbatim>\<open>.sort(propertyCompare("label"))\<close>: the items in the order of their labels; the sort of
  the runtime is stable, as \<^const>\<open>sort_key\<close> is. The comparison \<^verbatim>\<open>propertyCompare\<close>
  (app/common/gutil) is not among the sources; it is taken to order two items by \<^verbatim>\<open><\<close> on
  the named property.
\<close>

definition localeList :: "(jsstring \<Rightarrow> jsstring) \<Rightarrow> locale_entry list \<Rightarrow> LocaleItem list" where
  "localeList clean locales = sort_key label (map (locale_item clean) locales)"

text \<open>
  The text the picker shows for the stored locale code:
  \<^verbatim>\<open>locales.find(l => l.code === localeCode)?.name || localeCode\<close>. An empty name is
  falsy, so the code is shown in its place.
\<close>

definition textObs :: "locale_entry list \<Rightarrow> jsstring \<Rightarrow> jsstring" where
  "textObs locales localeCode =
     (case find (\<lambda>l. code l = localeCode) locales of
        None \<Rightarrow> localeCode
      | Some l \<Rightarrow> (if name l = [] then localeCode else name l))"

text \<open>
  The \<^verbatim>\<open>save\<close> callback handed to \<^verbatim>\<open>buildACSelect\<close>. Its first argument is not read.
  A missing item throws before anything is issued. Otherwise
  \<^verbatim>\<open>locale.saveOnly(item.locale!).catch(reportError)\<close>: the save is issued and not awaited,
  and a rejection goes to \<^verbatim>\<open>reportError\<close>, so the callback itself returns normally.
\<close>

definition save_locale ::
  "outcome \<Rightarrow> jsstring \<Rightarrow> LocaleItem option \<Rightarrow> doc_settings \<Rightarrow> (js_error + unit) \<times> doc_settings" where
  "save_locale res v item s =
     (case item of
        None \<Rightarrow> (Inl (Error ''Invalid locale''), s)
      | Some i \<Rightarrow>
          (case res of
             Resolved \<Rightarrow>
               (Inr (), s\<lparr>locale_prop := item_locale i,
                          calls := calls s @ [SaveLocale (item_locale i)]\<rparr>)
           | Rejected \<Rightarrow>
               (Inr (), s\<lparr>calls := calls s @ [SaveLocale (item_locale i), ReportError]\<rparr>)))"

section \<open>The editor wrapper\<close>

subsection \<open>Values, sizes and elements\<close>

text \<open>The values an option of the constructor or a return value can take.\<close>

datatype jsval = Undefined | Null | JBool bool | JNum int | JStr jsstring

text \<open>
  \<^verbatim>\<open>{width, height}\<close> in pixels. The numbers of the runtime are floating point; they are
  taken as reals, which keeps every comparison and sum of \<^verbatim>\<open>resize\<close> and leaves rounding
  out.
\<close>

record pixel_size =
  width :: real
  height :: real

datatype css_length = Unset | Auto | Px real

text \<open>
  An element of the page: its number, the two styles \<^verbatim>\<open>resize\<close> sets, and the editor the
  widget library has put on it, if any (\<^verbatim>\<open>el.env.editor\<close>).
\<close>

record elem =
  elem_id :: nat
  style_width :: css_length
  style_height :: css_length
  env_editor :: "nat option"

subsection \<open>The widget\<close>

text \<open>
  The closures the wrapper registers on the widget: \<^verbatim>\<open>this.resize.bind(this)\<close> on
  \<^verbatim>\<open>change\<close>, \<^verbatim>\<open>() => this.writeObservable()\<close> on \<^verbatim>\<open>blur\<close>, and the \<^verbatim>\<open>exec\<close> of
  a command: that of \<^verbatim>\<open>saveFormula\<close>, or the call of a command of a command group.
\<close>

datatype handler = Resize | WriteObservable

datatype command_exec = SaveFormula | GroupCommand string

record command =
  cmd_name :: string
  win :: string
  mac :: string
  sender :: string
  exec :: command_exec

text \<open>
  What the widget measures of itself and the wrapper reads: \<^verbatim>\<open>session.getScreenWidth()\<close>,
  \<^verbatim>\<open>session.getScreenLength()\<close>, \<^verbatim>\<open>renderer.characterWidth\<close>,
  \<^verbatim>\<open>renderer.lineHeight\<close> and \<^verbatim>\<open>renderer.scroller.clientWidth\<close>.
\<close>

record metrics =
  screenWidth :: nat
  screenLength :: nat
  characterWidth :: real
  lineHeight :: real
  clientWidth :: real

text \<open>
  Modelled from the spec: the editor widget (package brace) is not among the sources. The
  spec treats it as "an opaque capability set (edit, resize, set mode/theme, add command,
  get/set value)"; the record holds what the wrapper sets or reads through that capability
  set. The document is its lines and the line end it joins them with; the cursor is a row
  and a column, both from 0.
\<close>

record widget =
  wid :: nat
  container :: nat
  doc_lines :: "jsstring list"
  newLine :: jsstring
  cursor :: "nat \<times> nat"
  allSelected :: bool
  readOnly :: bool
  cursorOpacity :: nat
  commands :: "command list"
  on_change :: "handler list"
  on_blur :: "handler list"
  completer :: bool
  enableLiveAutocompletion :: bool
  mode :: string
  theme :: string
  showGutter :: bool
  tabSize :: nat
  useWrapMode :: bool
  wrapLimit :: "int option"
  blockScrolling :: bool
  fontSize :: nat
  resizes :: nat

abbreviation LF :: jschar where
  "LF \<equiv> 10"

abbreviation CR :: jschar where
  "CR \<equiv> 13"

definition is_break :: "jschar \<Rightarrow> bool" where
  "is_break c = (c = CR \<or> c = LF)"

text \<open>
  Modelled from the spec: the widget's document. The spec promises the round trip of a text
  "for any string without embedded control characters" only: the document breaks a text
  into lines at every CR LF, CR and LF, and gives it back with one line end between the
  lines, the first line end of the text it was given (LF for a text of one line).
\<close>

fun split_doc :: "jsstring \<Rightarrow> jsstring list" where
  "split_doc [] = [[]]"
| "split_doc [c] = (if is_break c then [[], []] else [[c]])"
| "split_doc (c # d # ds) =
     (if c = CR \<and> d = LF then [] # split_doc ds
      else if is_break c then [] # split_doc (d # ds)
      else (case split_doc (d # ds) of
              [] \<Rightarrow> [[c]]
            | l # ls \<Rightarrow> (c # l) # ls))"

fun detectNewLine :: "jsstring \<Rightarrow> jsstring" where
  "detectNewLine [] = [LF]"
| "detectNewLine [c] = (if is_break c then [c] else [LF])"
| "detectNewLine (c # d # ds) =
     (if c = CR \<and> d = LF then [CR, LF]
      else if is_break c then [c]
      else detectNewLine (d # ds))"

fun join_lines :: "jsstring \<Rightarrow> jsstring list \<Rightarrow> jsstring" where
  "join_lines nl [] = []"
| "join_lines nl [l] = l"
| "join_lines nl (l # ls) = l @ nl @ join_lines nl ls"

definition doc_start :: "nat \<times> nat" where
  "doc_start = (0, 0)"

definition doc_end :: "jsstring list \<Rightarrow> nat \<times> nat" where
  "doc_end ls = (case ls of [] \<Rightarrow> (0, 0) | _ \<Rightarrow> (length ls - 1, length (last ls)))"

text \<open>
  Modelled from the spec: \<^verbatim>\<open>indexToPosition\<close> of the widget's document. It walks the
  document's own lines, taking from the index the length of each line it passes and the
  length \<open>k\<close> of the document's line end, until the index falls on a line or on the line
  end after it. The index it is given by the wrapper is one of the text handed to
  \<^verbatim>\<open>setValue\<close>; the lines and the line end are those the document made of that text. On
  the last line the column is the index that is left, however large.
\<close>

fun indexToPosition :: "nat \<Rightarrow> jsstring list \<Rightarrow> nat \<Rightarrow> nat \<times> nat" where
  "indexToPosition k [] index = (0, index)"
| "indexToPosition k (l # ls) index =
     (if index < length l + k \<or> ls = [] then (0, index)
      else (case indexToPosition k ls (index - length l - k) of (r, c) \<Rightarrow> (Suc r, c)))"

text \<open>A cursor is kept inside the document: the row on a line, the column on that line.\<close>

definition clipPosition :: "jsstring list \<Rightarrow> nat \<times> nat \<Rightarrow> nat \<times> nat" where
  "clipPosition ls pos =
     (case pos of (r, c) \<Rightarrow>
        if length ls \<le> r then doc_end ls else (r, min c (length (ls ! r))))"

text \<open>
  Modelled from the spec: a widget nobody has configured yet, with an empty document, as
  \<^verbatim>\<open>ace.edit\<close> makes it on an element that has no editor.
\<close>

definition new_widget :: "nat \<Rightarrow> nat \<Rightarrow> widget" where
  "new_widget i el =
     \<lparr>wid = i, container = el, doc_lines = [[]], newLine = [LF], cursor = (0, 0),
      allSelected = False, readOnly = False, cursorOpacity = 100, commands = [],
      on_change = [], on_blur = [], completer = False, enableLiveAutocompletion = False,
      mode = ''ace/mode/text'', theme = ''ace/theme/textmate'', showGutter = True,
      tabSize = 4, useWrapMode = False, wrapLimit = None, blockScrolling = False,
      fontSize = 12, resizes = 0\<rparr>"

text \<open>
  The widget's \<^verbatim>\<open>setValue(val, cursorPos)\<close>, as the comment in the wrapper's
  \<^verbatim>\<open>setValue\<close> gives it: "undefined or 0 is selectAll, -1 is at the document start, and 1
  is at the end".
\<close>

definition w_setValue :: "jsstring \<Rightarrow> int \<Rightarrow> widget \<Rightarrow> widget" where
  "w_setValue val cursorPos w =
     (let ls = split_doc val;
          w' = w\<lparr>doc_lines := ls, newLine := detectNewLine val\<rparr>
      in if cursorPos = 0 then w'\<lparr>cursor := doc_end ls, allSelected := True\<rparr>
         else if cursorPos = 1 then w'\<lparr>cursor := doc_end ls, allSelected := False\<rparr>
         else if cursorPos = - 1 then w'\<lparr>cursor := doc_start, allSelected := False\<rparr>
         else w'\<lparr>cursor := clipPosition ls (cursor w)\<rparr>)"

definition w_getValue :: "widget \<Rightarrow> jsstring" where
  "w_getValue w = join_lines (newLine w) (doc_lines w)"

definition moveCursorTo :: "nat \<Rightarrow> nat \<Rightarrow> widget \<Rightarrow> widget" where
  "moveCursorTo r c w = w\<lparr>cursor := clipPosition (doc_lines w) (r, c), allSelected := False\<rparr>"

text \<open>
  \<^verbatim>\<open>commands.addCommand\<close>: the registry holds one command under a name, the latest added.
\<close>

definition addCommand :: "command \<Rightarrow> widget \<Rightarrow> widget" where
  "addCommand c w =
     w\<lparr>commands := filter (\<lambda>d. cmd_name d \<noteq> cmd_name c) (commands w) @ [c]\<rparr>"

subsection \<open>The wrapper and its surroundings\<close>

text \<open>
  The options object of the constructor. A missing or \<^verbatim>\<open>null\<close> \<^verbatim>\<open>observable\<close>,
  \<^verbatim>\<open>calcSize\<close> or \<^verbatim>\<open>gristDoc\<close> is \<open>None\<close>; \<^verbatim>\<open>saveValueOnBlurEvent\<close> is kept as the
  value it is, since the constructor compares it with \<^verbatim>\<open>===\<close>. An observable and a
  document are references, named by a number.
\<close>

record options =
  opt_observable :: "nat option"
  opt_saveValueOnBlurEvent :: jsval
  opt_calcSize :: "(nat option \<Rightarrow> pixel_size \<Rightarrow> pixel_size) option"
  opt_gristDoc :: "nat option"

text \<open>
  What surrounds a wrapper: the timers that are set and have not fired, the next fresh
  number (for elements, widgets and timers; never 0, so that a timer's handle is truthy),
  the widgets registered with \<^verbatim>\<open>autoDisposeWith('destroy', ...)\<close>, which live until the
  wrapper is disposed, the elements that hold a subscription to the observable, the value of
  the observable (\<open>None\<close> is \<^verbatim>\<open>undefined\<close>), the values pushed to it, and the measures the
  widget library reports for a widget.
\<close>

record browser =
  timers :: "nat list"
  next_id :: nat
  disposables :: "nat list"
  subscriptions :: "nat list"
  obs_value :: "jsstring option"
  obs_saves :: "jsval list"
  metrics_of :: "widget \<Rightarrow> metrics"

text \<open>
  The fields of an \<^verbatim>\<open>AceEditor\<close>, in the order the constructor sets them, then
  \<^verbatim>\<open>_fullDom\<close>, which \<^verbatim>\<open>buildDom\<close> adds. The field \<^verbatim>\<open>session\<close> refers to the session
  of a widget: it holds the widget's number, and the session's settings are read from and
  written to the widget in \<^verbatim>\<open>editor\<close>, which is the widget it was taken from.
\<close>

record world = browser +
  observable :: "nat option"
  saveValueOnBlurEvent :: bool
  calcSize :: "nat option \<Rightarrow> pixel_size \<Rightarrow> pixel_size"
  gristDoc :: "nat option"
  editor :: "widget option"
  editorDom :: "elem option"
  session :: "nat option"
  setupCallback :: "(widget \<Rightarrow> widget) option"
  setupTimer :: "nat option"
  textPadding :: real
  fullDom :: "nat option"

type_synonym 'a result = "(js_error + 'a) \<times> world"

text \<open>
  The constructor. \<^verbatim>\<open>!(options && (options.saveValueOnBlurEvent === false))\<close> is false
  for the boolean \<^verbatim>\<open>false\<close> alone; without an options object every field takes its
  default.
\<close>

definition AceEditor :: "options option \<Rightarrow> browser \<Rightarrow> world" where
  "AceEditor opts b =
     \<lparr>timers = timers b, next_id = next_id b, disposables = disposables b,
      subscriptions = subscriptions b, obs_value = obs_value b, obs_saves = obs_saves b,
      metrics_of = metrics_of b,
      observable = (case opts of None \<Rightarrow> None | Some o' \<Rightarrow> opt_observable o'),
      saveValueOnBlurEvent =
        (\<not> (case opts of None \<Rightarrow> False | Some o' \<Rightarrow> opt_saveValueOnBlurEvent o' = JBool False)),
      calcSize =
        (case opts of
           None \<Rightarrow> (\<lambda>el sz. sz)
         | Some o' \<Rightarrow> (case opt_calcSize o' of None \<Rightarrow> (\<lambda>el sz. sz) | Some f \<Rightarrow> f)),
      gristDoc = (case opts of None \<Rightarrow> None | Some o' \<Rightarrow> opt_gristDoc o'),
      editor = None, editorDom = None, session = None, setupCallback = None,
      setupTimer = None, textPadding = 10, fullDom = None\<rparr>"

subsection \<open>Reading\<close>

definition getEditor :: "world \<Rightarrow> widget option" where
  "getEditor st = editor st"

text \<open>\<^verbatim>\<open>this.editor && this.editor.getValue()\<close>: the \<^verbatim>\<open>null\<close> in the field, or the text.\<close>

definition getValue :: "world \<Rightarrow> jsval" where
  "getValue st = (case editor st of None \<Rightarrow> Null | Some w \<Rightarrow> JStr (w_getValue w))"

definition isBuilt :: "world \<Rightarrow> bool" where
  "isBuilt st = (editor st \<noteq> None)"

text \<open>What \<^verbatim>\<open>if (v)\<close> and \<^verbatim>\<open>!v\<close> test.\<close>

fun truthy :: "jsval \<Rightarrow> bool" where
  "truthy Undefined = False"
| "truthy Null = False"
| "truthy (JBool b) = b"
| "truthy (JNum n) = (n \<noteq> 0)"
| "truthy (JStr s) = (s \<noteq> [])"

fun is_string :: "jsval \<Rightarrow> bool" where
  "is_string (JStr s) = True"
| "is_string v = False"

text \<open>
  Modelled from the spec: \<^verbatim>\<open>setSaveValue\<close> (app/client/models/modelUtil) is not among
  the sources. \<^verbatim>\<open>writeObservable\<close> "pushes the current text back to the bound
  observable": the value is recorded as pushed, and a text becomes the observable's value.
\<close>

definition setSaveValue :: "jsval \<Rightarrow> world \<Rightarrow> world" where
  "setSaveValue v st =
     st\<lparr>obs_saves := obs_saves st @ [v],
        obs_value := (case v of JStr t \<Rightarrow> Some t | _ \<Rightarrow> obs_value st)\<rparr>"

definition writeObservable :: "world \<Rightarrow> world" where
  "writeObservable st =
     (case observable st of None \<Rightarrow> st | Some ob \<Rightarrow> setSaveValue (getValue st) st)"

subsection \<open>Sizing\<close>

definition getContentWidth :: "metrics \<Rightarrow> real" where
  "getContentWidth m = real (screenWidth m) * characterWidth m"

definition getContentHeight :: "metrics \<Rightarrow> real" where
  "getContentHeight m = real (max 1 (screenLength m)) * lineHeight m"

text \<open>The size \<^verbatim>\<open>resize\<close> asks \<^verbatim>\<open>calcSize\<close> for first, and the width it compares with.\<close>

definition contentWidth :: "widget \<Rightarrow> metrics \<Rightarrow> real" where
  "contentWidth w m = (if useWrapMode w then 0 else getContentWidth m)"

definition desiredSize :: "real \<Rightarrow> widget \<Rightarrow> metrics \<Rightarrow> pixel_size" where
  "desiredSize padding w m =
     \<lparr>width = (if useWrapMode w then 0 else contentWidth w m + padding),
      height = getContentHeight m\<rparr>"

text \<open>
  The size \<^verbatim>\<open>resize\<close> settles on: \<^verbatim>\<open>calcSize\<close> of the desired size, or, where that is
  narrower than the content, \<^verbatim>\<open>calcSize\<close> of the desired size made 20 pixels taller.
\<close>

definition settledSize :: "world \<Rightarrow> widget \<Rightarrow> pixel_size" where
  "settledSize st w =
     (let m = metrics_of st w;
          desired = desiredSize (textPadding st) w m;
          sz = calcSize st (fullDom st) desired
      in if width sz < contentWidth w m
         then calcSize st (fullDom st) (desired\<lparr>height := height desired + 20\<rparr>)
         else sz)"

text \<open>
  \<^verbatim>\<open>resize\<close>. The reads of \<^verbatim>\<open>this.session\<close> and \<^verbatim>\<open>this.editor.renderer\<close> come first and
  throw on \<^verbatim>\<open>null\<close>; the styles of \<^verbatim>\<open>editorDom\<close> are set next, a width of 0 as
  \<^verbatim>\<open>'auto'\<close>; the widget's own \<^verbatim>\<open>resize()\<close> is last.
\<close>

definition resize :: "world \<Rightarrow> unit result" where
  "resize st =
     (case session st of
        None \<Rightarrow> (Inl TypeError, st)
      | Some sid \<Rightarrow>
          (case editor st of
             None \<Rightarrow> (Inl TypeError, st)
           | Some w \<Rightarrow>
               (let sz = settledSize st w in
                case editorDom st of
                  None \<Rightarrow> (Inl TypeError, st)
                | Some d \<Rightarrow>
                    (Inr (),
                     st\<lparr>editorDom :=
                          Some (d\<lparr>style_width := (if width sz = 0 then Auto else Px (width sz)),
                                  style_height := Px (height sz)\<rparr>),
                        editor := Some (w\<lparr>resizes := Suc (resizes w)\<rparr>)\<rparr>))))"

text \<open>The handlers of an event of the widget, run in the order they were registered.\<close>

fun run_handlers :: "handler list \<Rightarrow> world \<Rightarrow> unit result" where
  "run_handlers [] st = (Inr (), st)"
| "run_handlers (Resize # hs) st =
     (case resize st of
        (Inl e, st') \<Rightarrow> (Inl e, st')
      | (Inr u, st') \<Rightarrow> run_handlers hs st')"
| "run_handlers (WriteObservable # hs) st = run_handlers hs (writeObservable st)"

subsection \<open>Writing the text\<close>

text \<open>
  \<^verbatim>\<open>setValue(val, optCursorPos)\<close>; an omitted position is \<open>None\<close>. The widget is told
  \<^verbatim>\<open>-1\<close> for the position 0 and \<^verbatim>\<open>1\<close> for any other. The widget reports a change of its
  content to the handlers registered on \<^verbatim>\<open>change\<close> (the spec's "auto-resizes on every
  content change"), and what a handler throws leaves \<^verbatim>\<open>setValue\<close>. A position inside
  the text, measured on the string the wrapper was given, then moves the cursor to the row
  and column the document's \<^verbatim>\<open>indexToPosition\<close> gives for that number.
\<close>

definition setValue :: "jsstring \<Rightarrow> int option \<Rightarrow> world \<Rightarrow> unit result" where
  "setValue val optCursorPos st =
     (case editor st of
        None \<Rightarrow> (Inl TypeError, st)
      | Some w \<Rightarrow>
          (let w' = w_setValue val (if optCursorPos = Some 0 then - 1 else 1) w;
               st1 = st\<lparr>editor := Some w'\<rparr>
           in case (if w_getValue w' \<noteq> w_getValue w then run_handlers (on_change w') st1
                    else (Inr (), st1)) of
                (Inl e, st2) \<Rightarrow> (Inl e, st2)
              | (Inr u, st2) \<Rightarrow>
                  (case optCursorPos of
                     None \<Rightarrow> (Inr (), st2)
                   | Some p \<Rightarrow>
                       if 0 < p \<and> p < int (length val) then
                         (case session st2 of
                            None \<Rightarrow> (Inl TypeError, st2)
                          | Some sid \<Rightarrow>
                              (case editor st2 of
                                 None \<Rightarrow> (Inl TypeError, st2)
                               | Some w2 \<Rightarrow>
                                   (case indexToPosition (length (newLine w2)) (doc_lines w2)
                                           (nat p) of
                                      (r, c) \<Rightarrow>
                                        (Inr (), st2\<lparr>editor := Some (moveCursorTo r c w2)\<rparr>))))
                       else (Inr (), st2))))"

text \<open>
  \<^verbatim>\<open>enable(bool)\<close>; \<^verbatim>\<open>gotoLine(Infinity, Infinity)\<close> puts the cursor at the end of the
  document and drops the selection.
\<close>

definition enable :: "bool \<Rightarrow> world \<Rightarrow> unit result" where
  "enable b st =
     (case editor st of
        None \<Rightarrow> (Inl TypeError, st)
      | Some w \<Rightarrow>
          (Inr (),
           st\<lparr>editor :=
                Some (w\<lparr>readOnly := \<not> b, cursorOpacity := (if b then 100 else 0),
                        cursor := doc_end (doc_lines w), allSelected := False\<rparr>)\<rparr>))"

subsection \<open>Commands\<close>

text \<open>
  \<^verbatim>\<open>attachCommandGroup\<close>: one command for each entry of \<^verbatim>\<open>knownKeys\<close>, a list of pairs
  of a key and the name of its command. \<^verbatim>\<open>this.editor\<close> is read inside the loop, so an
  empty group throws nothing.
\<close>

definition group_command :: "string \<times> string \<Rightarrow> command" where
  "group_command kc =
     (case kc of (key, c) \<Rightarrow>
        \<lparr>cmd_name = c, win = key, mac = key, sender = ''editor|cli'', exec = GroupCommand c\<rparr>)"

definition attachCommandGroup :: "(string \<times> string) list \<Rightarrow> world \<Rightarrow> unit result" where
  "attachCommandGroup knownKeys st =
     (case knownKeys of
        [] \<Rightarrow> (Inr (), st)
      | kc # kcs \<Rightarrow>
          (case editor st of
             None \<Rightarrow> (Inl TypeError, st)
           | Some w \<Rightarrow>
               (Inr (), st\<lparr>editor := Some (fold (\<lambda>k. addCommand (group_command k)) knownKeys w)\<rparr>)))"

definition saveFormula :: command where
  "saveFormula =
     \<lparr>cmd_name = ''saveFormula'', win = ''Shift+Enter'', mac = ''Shift+Enter'',
      sender = ''editor|cli'', exec = SaveFormula\<rparr>"

text \<open>
  \<^verbatim>\<open>attachSaveCommand\<close>: the check of the observable comes first; \<^verbatim>\<open>this.editor.commands\<close>
  is read after it and throws on a wrapper whose widget has not been set up.
\<close>

definition attachSaveCommand :: "world \<Rightarrow> unit result" where
  "attachSaveCommand st =
     (case observable st of
        None \<Rightarrow>
          (Inl (Error ''Cannot attach save command to editor with no bound observable''), st)
      | Some ob \<Rightarrow>
          (case editor st of
             None \<Rightarrow> (Inl TypeError, st)
           | Some w \<Rightarrow> (Inr (), st\<lparr>editor := Some (addCommand saveFormula w)\<rparr>)))"

text \<open>
  The key of a command is pressed: the \<^verbatim>\<open>exec\<close> of \<^verbatim>\<open>saveFormula\<close> writes the observable.
  What a command of a command group does is the caller's; it is not run here.
\<close>

definition exec_command :: "string \<Rightarrow> world \<Rightarrow> world" where
  "exec_command n st =
     (case editor st of
        None \<Rightarrow> st
      | Some w \<Rightarrow>
          (case find (\<lambda>c. cmd_name c = n) (commands w) of
             None \<Rightarrow> st
           | Some c \<Rightarrow> (case exec c of SaveFormula \<Rightarrow> writeObservable st | GroupCommand g \<Rightarrow> st)))"

text \<open>
  \<^verbatim>\<open>parseInt\<close> of a number drops its fraction, towards 0.
\<close>

definition js_parseInt :: "real \<Rightarrow> int" where
  "js_parseInt x = (if 0 \<le> x then \<lfloor>x\<rfloor> else \<lceil>x\<rceil>)"

text \<open>
  \<^verbatim>\<open>adjustContentToWidth\<close>. A character width of 0 makes the quotient infinite and the
  limit \<^verbatim>\<open>NaN\<close>, here \<open>None\<close>.
\<close>

definition adjustContentToWidth :: "world \<Rightarrow> unit result" where
  "adjustContentToWidth st =
     (case editor st of
        None \<Rightarrow> (Inl TypeError, st)
      | Some w \<Rightarrow>
          (let m = metrics_of st w in
           if clientWidth m > 0 then
             (Inr (),
              st\<lparr>editor :=
                   Some (w\<lparr>wrapLimit :=
                             (if characterWidth m = 0 then None
                              else Some (js_parseInt (clientWidth m / characterWidth m) - 1))\<rparr>)\<rparr>)
           else (Inr (), st)))"

definition setFontSize :: "nat \<Rightarrow> world \<Rightarrow> unit result" where
  "setFontSize pxVal st =
     (case editor st of
        None \<Rightarrow> (Inl TypeError, st)
      | Some w \<Rightarrow> resize (st\<lparr>editor := Some (w\<lparr>fontSize := pxVal\<rparr>)\<rparr>))"

subsection \<open>Setting the widget up\<close>

text \<open>
  Lines 195 to 207 of \<^verbatim>\<open>_setup\<close>: with an observable, \<^verbatim>\<open>subscribeInit\<close> calls its
  callback at once with the observable's value, which sets the text unless the value is
  \<^verbatim>\<open>undefined\<close>; the subscription is tied to \<^verbatim>\<open>editorDom\<close>; and the handler of
  \<^verbatim>\<open>blur\<close> is registered where \<^verbatim>\<open>saveValueOnBlurEvent\<close> holds.
\<close>

definition bind_observable :: "nat \<Rightarrow> world \<Rightarrow> unit result" where
  "bind_observable el st =
     (case observable st of
        None \<Rightarrow> (Inr (), st)
      | Some ob \<Rightarrow>
          (case (case obs_value st of
                   None \<Rightarrow> (Inr (), st)
                 | Some v \<Rightarrow> setValue v None st) of
             (Inl e, st1) \<Rightarrow> (Inl e, st1)
           | (Inr u, st1) \<Rightarrow>
               (let st2 = st1\<lparr>subscriptions := subscriptions st1 @ [el]\<rparr> in
                if saveValueOnBlurEvent st2 then
                  (Inr (),
                   st2\<lparr>editor :=
                         map_option (\<lambda>w. w\<lparr>on_blur := on_blur w @ [WriteObservable]\<rparr>)
                           (editor st2)\<rparr>)
                else (Inr (), st2))))"

text \<open>
  Modelled from the spec: \<^verbatim>\<open>ace.edit(el)\<close>. On an element that has no editor it makes a
  new widget under a fresh number; on an element that has one it returns that editor. An
  element gets its editor from the \<^verbatim>\<open>_setup\<close> that follows its \<^verbatim>\<open>buildDom\<close>, which
  puts the same widget in \<^verbatim>\<open>editor\<close>: the editor of \<^verbatim>\<open>editorDom\<close>, when it has one, is
  the widget in \<^verbatim>\<open>editor\<close>, and the branch where that field is empty is never taken.
\<close>

definition ace_edit :: "elem \<Rightarrow> world \<Rightarrow> (nat \<times> widget) option" where
  "ace_edit d st =
     (case env_editor d of
        None \<Rightarrow> Some (next_id st, new_widget (next_id st) (elem_id d))
      | Some i \<Rightarrow> (case editor st of None \<Rightarrow> None | Some w \<Rightarrow> Some (i, w)))"

text \<open>
  \<^verbatim>\<open>_setup\<close> from the widget \<open>w0\<close>, numbered \<open>i\<close>, that \<^verbatim>\<open>ace.edit\<close> returned for the
  element \<open>d\<close>: \<^verbatim>\<open>autoDisposeWith\<close> registers it for \<^verbatim>\<open>destroy\<close>; the settings follow,
  among them one more handler of \<^verbatim>\<open>change\<close>; then the first \<^verbatim>\<open>resize\<close>, the observable,
  and the caller's callback, which is handed the widget and then forgotten.
\<close>

definition configure :: "nat \<Rightarrow> elem \<Rightarrow> widget \<Rightarrow> world \<Rightarrow> unit result" where
  "configure i d w0 st =
     (let w1 = (if gristDoc st \<noteq> None then w0\<lparr>completer := True\<rparr> else w0);
          w2 = w1\<lparr>enableLiveAutocompletion := True, mode := ''ace/mode/python'',
                  theme := ''ace/theme/chrome'', showGutter := False, tabSize := 2,
                  useWrapMode := True, on_change := on_change w1 @ [Resize],
                  blockScrolling := True, fontSize := 11\<rparr>;
          st1 = st\<lparr>disposables := disposables st @ [i],
                   editor := Some w2, session := Some i,
                   editorDom := Some (d\<lparr>env_editor := Some i\<rparr>)\<rparr>
      in case resize st1 of
           (Inl e, st2) \<Rightarrow> (Inl e, st2)
         | (Inr u, st2) \<Rightarrow>
             (case bind_observable (elem_id d) st2 of
                (Inl e, st3) \<Rightarrow> (Inl e, st3)
              | (Inr u, st3) \<Rightarrow>
                  (case setupCallback st3 of
                     None \<Rightarrow> (Inr (), st3)
                   | Some cb \<Rightarrow>
                       (Inr (),
                        st3\<lparr>editor := map_option cb (editor st3),
                            setupCallback := None\<rparr>))))"

text \<open>
  \<^verbatim>\<open>_setup\<close>. It runs from the timer of \<^verbatim>\<open>buildDom\<close> or from \<^verbatim>\<open>onAttach\<close> under that
  timer, so \<^verbatim>\<open>editorDom\<close> is set whenever it runs; the branch without it is never taken.
\<close>

definition setup_widget :: "world \<Rightarrow> unit result" where
  "setup_widget st =
     (case editorDom st of
        None \<Rightarrow> (Inl TypeError, st)
      | Some d \<Rightarrow>
          (case ace_edit d st of
             None \<Rightarrow> (Inl TypeError, st)
           | Some (i, w0) \<Rightarrow>
               configure i d w0
                 (st\<lparr>next_id := (if env_editor d = None then Suc (next_id st) else next_id st)\<rparr>)))"

text \<open>
  \<^verbatim>\<open>buildDom\<close>: two fresh elements, the callback, and a timer of 0 milliseconds whose
  handle goes to \<^verbatim>\<open>_setupTimer\<close>. A timer set by an earlier call stays set. The
  element it returns is the one in \<^verbatim>\<open>_fullDom\<close>.
\<close>

definition buildDom :: "(widget \<Rightarrow> widget) option \<Rightarrow> world \<Rightarrow> world" where
  "buildDom optSetupCallback st =
     st\<lparr>editorDom :=
          Some \<lparr>elem_id = next_id st, style_width = Unset, style_height = Unset,
                env_editor = None\<rparr>,
        fullDom := Some (next_id st + 1),
        setupCallback := optSetupCallback,
        setupTimer := Some (next_id st + 2),
        timers := timers st @ [next_id st + 2],
        next_id := next_id st + 3\<rparr>"

text \<open>
  \<^verbatim>\<open>onAttach\<close>: under a truthy \<^verbatim>\<open>_setupTimer\<close>, the timer is cleared, the field set to
  \<^verbatim>\<open>null\<close>, and \<^verbatim>\<open>_setup\<close> run.
\<close>

definition onAttach :: "world \<Rightarrow> unit result" where
  "onAttach st =
     (case setupTimer st of
        None \<Rightarrow> (Inr (), st)
      | Some t \<Rightarrow>
          if t = 0 then (Inr (), st)
          else setup_widget (st\<lparr>timers := removeAll t (timers st), setupTimer := None\<rparr>))"

text \<open>
  A timer fires: the callback \<^verbatim>\<open>() => this._setup()\<close> of \<^verbatim>\<open>buildDom\<close> runs, if the timer
  is still set. It does not touch \<^verbatim>\<open>_setupTimer\<close>.
\<close>

definition timer_fires :: "nat \<Rightarrow> world \<Rightarrow> unit result" where
  "timer_fires t st =
     (if t \<in> set (timers st) then setup_widget (st\<lparr>timers := removeAll t (timers st)\<rparr>)
      else (Inr (), st))"

subsection \<open>Events\<close>

text \<open>The widget loses the focus: its handlers of \<^verbatim>\<open>blur\<close> run.\<close>

definition blur :: "world \<Rightarrow> unit result" where
  "blur st = (case editor st of None \<Rightarrow> (Inr (), st) | Some w \<Rightarrow> run_handlers (on_blur w) st)"

text \<open>
  The observable takes a value from elsewhere: each subscription's callback runs, setting
  the text unless the value is \<^verbatim>\<open>undefined\<close>.
\<close>

fun notify :: "nat list \<Rightarrow> jsstring option \<Rightarrow> world \<Rightarrow> unit result" where
  "notify [] v st = (Inr (), st)"
| "notify (el # els) v st =
     (case (case v of None \<Rightarrow> (Inr (), st) | Some t \<Rightarrow> setValue t None st) of
        (Inl e, st') \<Rightarrow> (Inl e, st')
      | (Inr u, st') \<Rightarrow> notify els v st')"

definition observable_changes :: "jsstring option \<Rightarrow> world \<Rightarrow> unit result" where
  "observable_changes v st = notify (subscriptions st) v (st\<lparr>obs_value := v\<rparr>)"

subsection \<open>A wrapper's life\<close>

text \<open>
  The calls of the wrapper's methods and the events that run its code, and the state each
  leaves, whether it returned or threw.
\<close>

datatype action =
    BuildDom "(widget \<Rightarrow> widget) option"
  | OnAttach
  | TimerFires nat
  | DoWriteObservable
  | SetValue jsstring "int option"
  | Enable bool
  | AttachCommandGroup "(string \<times> string) list"
  | AttachSaveCommand
  | AdjustContentToWidth
  | SetFontSize nat
  | DoResize
  | Blur
  | ExecCommand string
  | ObservableChanges "jsstring option"

fun step :: "action \<Rightarrow> world \<Rightarrow> world" where
  "step (BuildDom cb) st = buildDom cb st"
| "step OnAttach st = snd (onAttach st)"
| "step (TimerFires t) st = snd (timer_fires t st)"
| "step DoWriteObservable st = writeObservable st"
| "step (SetValue val p) st = snd (setValue val p st)"
| "step (Enable b) st = snd (enable b st)"
| "step (AttachCommandGroup ks) st = snd (attachCommandGroup ks st)"
| "step AttachSaveCommand st = snd (attachSaveCommand st)"
| "step AdjustContentToWidth st = snd (adjustContentToWidth st)"
| "step (SetFontSize px) st = snd (setFontSize px st)"
| "step DoResize st = snd (resize st)"
| "step Blur st = snd (blur st)"
| "step (ExecCommand n) st = exec_command n st"
| "step (ObservableChanges v) st = snd (observable_changes v st)"

definition run :: "action list \<Rightarrow> world \<Rightarrow> world" where
  "run acts st = fold step acts st"

text \<open>
  The state \<^verbatim>\<open>_setup\<close> leaves and every method keeps: a widget, its session in
  \<^verbatim>\<open>session\<close>, and the element it sits on.
\<close>

definition built :: "world \<Rightarrow> bool" where
  "built st =
     (case editor st of
        None \<Rightarrow> False
      | Some w \<Rightarrow> session st \<noteq> None \<and> editorDom st \<noteq> None)"

subsection \<open>Rows and columns of a text\<close>

text \<open>
  The row and the column of the character index \<open>p\<close> of a text, as the claim about the
  cursor names them: a row for every line end that lies before the index, a CR LF counting
  as one, and for the column the number of characters since the last of them. An index
  between the CR and the LF of a line end is at the end of its line. The index 0 is the
  start of the text, the index \<open>length val\<close> its end.
\<close>

fun position_of :: "jsstring \<Rightarrow> nat \<Rightarrow> nat \<times> nat" where
  "position_of val 0 = (0, 0)"
| "position_of [] (Suc p) = (0, 0)"
| "position_of [c] (Suc p) = (if is_break c then (1, 0) else (0, 1))"
| "position_of (c # d # ds) (Suc p) =
     (if c = CR \<and> d = LF then
        (case p of
           0 \<Rightarrow> (0, 0)
         | Suc q \<Rightarrow> (case position_of ds q of (r, k) \<Rightarrow> (Suc r, k)))
      else if is_break c then (case position_of (d # ds) p of (r, k) \<Rightarrow> (Suc r, k))
      else (case position_of (d # ds) p of (r, k) \<Rightarrow> (r, if r = 0 then Suc k else k)))"

text \<open>Every line end of a text is \<open>k\<close> characters long.\<close>

fun ends_of_length :: "nat \<Rightarrow> jsstring \<Rightarrow> bool" where
  "ends_of_length k [] = True"
| "ends_of_length k [c] = (is_break c \<longrightarrow> k = 1)"
| "ends_of_length k (c # d # ds) =
     (if c = CR \<and> d = LF then k = 2 \<and> ends_of_length k ds
      else (is_break c \<longrightarrow> k = 1) \<and> ends_of_length k (d # ds))"

text \<open>
  The line ends of a text are all as long as the first of them: all are single characters,
  CR or LF, or all are CR LF. A text without CR is of this kind.
\<close>

definition uniform_line_ends :: "jsstring \<Rightarrow> bool" where
  "uniform_line_ends val = ends_of_length (length (detectNewLine val)) val"

subsection \<open>Widgets over a wrapper's life\<close>

text \<open>
  The widgets a wrapper owns and has not destroyed: those it registered for disposal. The
  number of calls of \<^verbatim>\<open>buildDom\<close> among some actions.
\<close>

definition live_widgets :: "world \<Rightarrow> nat set" where
  "live_widgets st = set (disposables st)"

fun buildDom_calls :: "action list \<Rightarrow> nat" where
  "buildDom_calls [] = 0"
| "buildDom_calls (BuildDom cb # acts) = Suc (buildDom_calls acts)"
| "buildDom_calls (a # acts) = buildDom_calls acts"

text \<open>
  At most \<open>n\<close> widgets are or can still come to be: the live ones, and one more where the
  element of \<^verbatim>\<open>editorDom\<close> has no editor yet. The editor of that element, when it has one,
  is live and is the one a widget in \<^verbatim>\<open>editor\<close> lets \<^verbatim>\<open>ace.edit\<close> return.
\<close>

definition widgets_bounded :: "nat \<Rightarrow> world \<Rightarrow> bool" where
  "widgets_bounded n st =
     (case editorDom st of
        None \<Rightarrow> card (live_widgets st) \<le> n
      | Some d \<Rightarrow>
          (case env_editor d of
             None \<Rightarrow> Suc (card (live_widgets st)) \<le> n
           | Some i \<Rightarrow> card (live_widgets st) \<le> n \<and> i \<in> live_widgets st))"

subsection \<open>What an operation leaves alone\<close>

text \<open>
  A state without the four parts that the methods of a set-up wrapper write: the widget, the
  element's style, and the observable's value and pushes.
\<close>

definition rest :: "world \<Rightarrow> world" where
  "rest st = st\<lparr>editor := None, editorDom := None, obs_saves := [], obs_value := None\<rparr>"

text \<open>
  Two states that differ in those four parts at most, with a widget in the one exactly when
  in the other, and with the same editor, or none, on their element.
\<close>

definition frame :: "world \<Rightarrow> world \<Rightarrow> bool" where
  "frame st st' \<longleftrightarrow>
     rest st' = rest st \<and>
     (editor st' = None \<longleftrightarrow> editor st = None) \<and>
     map_option env_editor (editorDom st') = map_option env_editor (editorDom st)"

text \<open>
  What every action keeps: the observable, the flag and the padding the constructor set, a
  widget once there is one, and with the widget its session and its element.
\<close>

definition kept :: "world \<Rightarrow> world \<Rightarrow> bool" where
  "kept st st' \<longleftrightarrow>
     observable st' = observable st \<and>
     saveValueOnBlurEvent st' = saveValueOnBlurEvent st \<and>
     textPadding st' = textPadding st \<and>
     (isBuilt st \<longrightarrow> isBuilt st') \<and>
     ((isBuilt st \<longrightarrow> built st) \<longrightarrow> (isBuilt st' \<longrightarrow> built st'))"

subsection \<open>The words of the claims\<close>

text \<open>
  A control character: a code unit below the space character, or the delete character.
\<close>

definition is_control :: "jschar \<Rightarrow> bool" where
  "is_control c = (c < 32 \<or> c = 127)"

text \<open>
  The size the claim about \<^verbatim>\<open>resize\<close> describes, in its words: a width of 0 in wrap
  mode, otherwise the screen width times the character width plus the padding; a height of
  at least one line; the sizing function applied to it, and applied again to a box 20
  pixels taller where the first answer is narrower than the content.
\<close>

definition claimed_size ::
  "real \<Rightarrow> bool \<Rightarrow> metrics \<Rightarrow> (pixel_size \<Rightarrow> pixel_size) \<Rightarrow> pixel_size" where
  "claimed_size padding wrap m calc =
     (let content = (if wrap then 0 else real (screenWidth m) * characterWidth m);
          desired = \<lparr>width = (if wrap then 0 else real (screenWidth m) * characterWidth m + padding),
                     height = real (max 1 (screenLength m)) * lineHeight m\<rparr>
      in if width (calc desired) < content
         then calc \<lparr>width = width desired, height = height desired + 20\<rparr>
         else calc desired)"

subsection \<open>An example\<close>

text \<open>
  A browser with nothing in it, whose widgets are 40 columns of 7 pixels wide and as many
  lines of 14 pixels high as their document has; an options object with an observable; and
  the wrapper made from them, its element built and attached.
\<close>

definition example_browser :: browser where
  "example_browser =
     \<lparr>timers = [], next_id = 1, disposables = [], subscriptions = [],
      obs_value = Some (js ''a = 1''), obs_saves = [],
      metrics_of = (\<lambda>w. \<lparr>screenWidth = 40, screenLength = length (doc_lines w),
                           characterWidth = 7, lineHeight = 14, clientWidth = 280\<rparr>)\<rparr>"

definition example_options :: options where
  "example_options =
     \<lparr>opt_observable = Some 7, opt_saveValueOnBlurEvent = Undefined, opt_calcSize = None,
      opt_gristDoc = None\<rparr>"

definition example_editor :: world where
  "example_editor = run [BuildDom None, OnAttach] (AceEditor (Some example_options) example_browser)"

definition example_flag :: "jsval \<Rightarrow> world" where
  "example_flag v =
     run [BuildDom None, OnAttach]
       (AceEditor (Some (example_options\<lparr>opt_saveValueOnBlurEvent := v\<rparr>)) example_browser)"

text \<open>
  A wrapper whose sizing function lets no box be wider than 100 pixels and whose callback
  turns wrap mode off.
\<close>

definition example_clamped :: world where
  "example_clamped =
     run [BuildDom (Some (\<lambda>w. w\<lparr>useWrapMode := False\<rparr>)), OnAttach]
       (AceEditor
          (Some (example_options\<lparr>opt_calcSize := Some (\<lambda>el sz. sz\<lparr>width := min (width sz) 100\<rparr>)\<rparr>))
          example_browser)"

section \<open>Properties of the settings page\<close>

text \<open>
  C1, as stated: a confirmed change to a value that differs from the stored one issues one
  save followed by one reload. It fails where the save is rejected: the stored engine is
  python2, the user confirms python3, the save rejects, and the trace holds the save alone.
\<close>

theorem doSetEngine_rejected_save_counterexample:
  "engine \<lparr>engine = Some python2, locale_prop = None, calls = []\<rparr> \<noteq> Some python3 \<and>
   issued \<lparr>engine = Some python2, locale_prop = None, calls = []\<rparr>
     (setEngine True Rejected Resolved (Some python3)
        \<lparr>engine = Some python2, locale_prop = None, calls = []\<rparr>)
     \<noteq> [SaveEngine (Some python3), ForceReload]"
  by (simp add: setEngine_def doSetEngine_def saveOnly_engine_def forceReload_def issued_def)

text \<open>
  C1, amended: a confirmed change to the stored value issues nothing; a confirmed change to
  another value issues exactly one save of the engine setting, followed by exactly one
  \<^verbatim>\<open>forceReload\<close> when the save resolves and by nothing when it rejects.
\<close>

theorem setEngine_calls:
  "issued s (setEngine True save_res reload_res val s) =
     (if engine s = val then []
      else if save_res = Resolved then [SaveEngine val, ForceReload]
      else [SaveEngine val])"
  by (cases save_res)
     (simp_all add: setEngine_def doSetEngine_def saveOnly_engine_def forceReload_def issued_def)

theorem setEngine_calls_witness:
  "issued \<lparr>engine = Some python2, locale_prop = None, calls = [ForceReload]\<rparr>
     (setEngine True Resolved Resolved (Some python3)
        \<lparr>engine = Some python2, locale_prop = None, calls = [ForceReload]\<rparr>)
     = [SaveEngine (Some python3), ForceReload] \<and>
   issued \<lparr>engine = Some python3, locale_prop = None, calls = []\<rparr>
     (setEngine True Resolved Resolved (Some python3)
        \<lparr>engine = Some python3, locale_prop = None, calls = []\<rparr>) = []"
  using setEngine_calls [of "\<lparr>engine = Some python2, locale_prop = None, calls = [ForceReload]\<rparr>"
                          Resolved Resolved "Some python3"]
        setEngine_calls [of "\<lparr>engine = Some python3, locale_prop = None, calls = []\<rparr>"
                          Resolved Resolved "Some python3"]
  by simp

text \<open>
  C5: every locale of the static list has its entry in the picker's list, shown under the
  locale's display name; when that entry is the selected item, the save handler issues
  exactly one save, of the locale's code, whatever text it is handed as its first argument,
  and the code is the stored locale once the save resolves.
\<close>

theorem save_locale_persists_code:
  assumes "l \<in> set locales"
  shows "locale_item clean l \<in> set (localeList clean locales) \<and>
         label (locale_item clean l) = name l \<and>
         item_value (locale_item clean l) = name l \<and>
         fst (save_locale res v (Some (locale_item clean l)) s) = Inr () \<and>
         issued s (save_locale res v (Some (locale_item clean l)) s) =
           SaveLocale (Some (code l)) # (case res of Resolved \<Rightarrow> [] | Rejected \<Rightarrow> [ReportError]) \<and>
         locale_prop (snd (save_locale Resolved v (Some (locale_item clean l)) s)) = Some (code l)"
  using assms
  by (cases res) (simp_all add: localeList_def locale_item_def save_locale_def issued_def)

theorem save_locale_persists_code_witness:
  "issued \<lparr>engine = None, locale_prop = Some (js ''en-US''), calls = []\<rparr>
     (save_locale Resolved (js ''France (French)'')
        (Some (locale_item (\<lambda>t. t) \<lparr>name = js ''France (French)'', code = js ''fr-FR''\<rparr>))
        \<lparr>engine = None, locale_prop = Some (js ''en-US''), calls = []\<rparr>)
     = [SaveLocale (Some (js ''fr-FR''))]"
  using save_locale_persists_code
          [of "\<lparr>name = js ''France (French)'', code = js ''fr-FR''\<rparr>"
              "[\<lparr>name = js ''United States (English)'', code = js ''en-US''\<rparr>,
                \<lparr>name = js ''France (French)'', code = js ''fr-FR''\<rparr>]"
              "\<lambda>t. t" Resolved "js ''France (French)''"
              "\<lparr>engine = None, locale_prop = Some (js ''en-US''), calls = []\<rparr>"]
  by simp

text \<open>
  C6: invoked with no item, the locale save handler throws, and the state it leaves is the
  state it found: no save of the locale has been issued.
\<close>

theorem save_locale_no_item:
  "save_locale res v None s = (Inl (Error ''Invalid locale''), s) \<and>
   issued s (save_locale res v None s) = []"
  by (simp add: save_locale_def issued_def)

section \<open>Properties of the editor wrapper\<close>

subsection \<open>Lines, rows and columns\<close>

lemma split_doc_not_Nil [simp]: "split_doc s \<noteq> []"
  by (induction s rule: split_doc.induct) (auto split: list.splits)

lemma not_control_not_break: "\<not> is_control c \<Longrightarrow> \<not> is_break c"
  by (auto simp: is_control_def is_break_def)

lemma split_doc_one_line:
  "\<forall>c \<in> set val. \<not> is_control c \<Longrightarrow> split_doc val = [val]"
  by (induction val rule: split_doc.induct) (auto simp: is_control_def is_break_def)

lemma indexToPosition_0 [simp]: "0 < k \<Longrightarrow> indexToPosition k (l # ls) 0 = (0, 0)"
  by simp

lemma position_of_end: "position_of val (length val) = doc_end (split_doc val)"
proof (induction val rule: split_doc.induct)
  case 1
  show ?case by (simp add: doc_end_def)
next
  case (2 c)
  show ?case by (simp add: doc_end_def)
next
  case (3 c d ds)
  obtain l ls where sp: "split_doc (d # ds) = l # ls"
    by (cases "split_doc (d # ds)") simp_all
  obtain l' ls' where sp': "split_doc ds = l' # ls'"
    by (cases "split_doc ds") simp_all
  show ?case
  proof (cases "c = CR \<and> d = LF")
    case True
    with 3(1) sp' show ?thesis by (auto simp: doc_end_def)
  next
    case False
    show ?thesis
    proof (cases "is_break c")
      case True
      with False 3(2) sp show ?thesis by (auto simp: doc_end_def)
    next
      case nb: False
      with False 3(3) sp show ?thesis by (auto simp: doc_end_def)
    qed
  qed
qed

lemma indexToPosition_position_of:
  assumes "ends_of_length k val" "0 < k" "p \<le> length val"
  shows "\<exists>r c. indexToPosition k (split_doc val) p = (r, c) \<and> r < length (split_doc val) \<and>
               position_of val p = (r, min c (length (split_doc val ! r)))"
  using assms
proof (induction val arbitrary: p rule: split_doc.induct)
  case 1
  then show ?case by simp
next
  case (2 c)
  then show ?case by (cases p) (auto simp: less_Suc_eq)
next
  case (3 c d ds)
  obtain l ls where sp: "split_doc (d # ds) = l # ls"
    by (cases "split_doc (d # ds)") simp_all
  obtain l' ls' where sp': "split_doc ds = l' # ls'"
    by (cases "split_doc ds") simp_all
  show ?case
  proof (cases p)
    case 0
    with 3(5) sp sp' show ?thesis by (auto split: list.splits)
  next
    case (Suc p')
    show ?thesis
    proof (cases "c = CR \<and> d = LF")
      case True
      with 3(4) have k: "k = 2" and e: "ends_of_length k ds" by auto
      have sd: "split_doc (c # d # ds) = [] # split_doc ds" using True by simp
      show ?thesis
      proof (cases p')
        case 0
        have "position_of (c # d # ds) (Suc 0) = (0, 0)" using True by simp
        with 0 Suc k sp' sd show ?thesis
          by (simp del: split_doc.simps(3) position_of.simps(4))
      next
        case (Suc q)
        with \<open>p = Suc p'\<close> 3(6) have q: "q \<le> length ds" by simp
        from 3(1) [OF True e 3(5) q] obtain r c' where
          "indexToPosition k (split_doc ds) q = (r, c')" "r < length (split_doc ds)"
          "position_of ds q = (r, min c' (length (split_doc ds ! r)))" by blast
        moreover have "position_of (c # d # ds) (Suc (Suc q)) =
                        (case position_of ds q of (r, k) \<Rightarrow> (Suc r, k))"
          using True by simp
        ultimately show ?thesis using Suc \<open>p = Suc p'\<close> k sp' sd
          by (simp del: split_doc.simps(3) position_of.simps(4))
      qed
    next
      case False
      with 3(4) have e: "ends_of_length k (d # ds)" and k: "is_break c \<longrightarrow> k = 1" by simp_all
      from Suc 3(6) have p': "p' \<le> length (d # ds)" by simp
      show ?thesis
      proof (cases "is_break c")
        case True
        have sd: "split_doc (c # d # ds) = [] # split_doc (d # ds)" using True False by auto
        have pp: "position_of (c # d # ds) (Suc p') =
                    (case position_of (d # ds) p' of (r, k) \<Rightarrow> (Suc r, k))"
          using True False by auto
        from 3(2) [OF False True e 3(5) p'] obtain r c' where
          "indexToPosition k (split_doc (d # ds)) p' = (r, c')" "r < length (split_doc (d # ds))"
          "position_of (d # ds) p' = (r, min c' (length (split_doc (d # ds) ! r)))" by blast
        with True Suc k sd pp show ?thesis
          by (simp del: split_doc.simps(3) position_of.simps(4))
      next
        case nb: False
        have sd: "split_doc (c # d # ds) = (c # l) # ls" using nb False sp by auto
        have pp: "position_of (c # d # ds) (Suc p') =
                    (case position_of (d # ds) p' of (r, k) \<Rightarrow> (r, if r = 0 then Suc k else k))"
          using nb False by auto
        from 3(3) [OF False nb e 3(5) p'] obtain r c' where
          i: "indexToPosition k (split_doc (d # ds)) p' = (r, c')" and r: "r < length (split_doc (d # ds))"
          and po: "position_of (d # ds) p' = (r, min c' (length (split_doc (d # ds) ! r)))" by blast
        show ?thesis
        proof (cases "p' < length l + k \<or> ls = []")
          case True
          with i sp have "r = 0" "c' = p'" by auto
          with True Suc sp po sd pp show ?thesis
            by (auto simp del: split_doc.simps(3) position_of.simps(4))
        next
          case f: False
          with i sp obtain r' where r': "r = Suc r'" by (auto split: prod.splits)
          with f Suc sp po i r sd pp show ?thesis
            by (auto simp del: split_doc.simps(3) position_of.simps(4) split: prod.splits)
        qed
      qed
    qed
  qed
qed

lemma no_CR_ends: "CR \<notin> set val \<Longrightarrow> ends_of_length (Suc 0) val"
proof (induction val rule: split_doc.induct)
  case 1
  show ?case by simp
next
  case (2 c)
  show ?case by simp
next
  case (3 c d ds)
  then show ?case by auto
qed

lemma no_CR_detect: "CR \<notin> set val \<Longrightarrow> detectNewLine val = [LF]"
  by (induction val rule: split_doc.induct) (auto simp: is_break_def)

lemma no_CR_uniform: "CR \<notin> set val \<Longrightarrow> uniform_line_ends val"
  by (simp add: uniform_line_ends_def no_CR_detect no_CR_ends)

lemma detectNewLine_pos: "0 < length (detectNewLine val)"
  by (induction val rule: detectNewLine.induct) auto


subsection \<open>A built wrapper\<close>

lemma resize_built:
  assumes "editor st = Some w" "session st = Some sid" "editorDom st = Some d"
  shows "resize st =
     (Inr (),
      st\<lparr>editorDom :=
           Some (d\<lparr>style_width := (if width (settledSize st w) = 0 then Auto
                                     else Px (width (settledSize st w))),
                   style_height := Px (height (settledSize st w))\<rparr>),
         editor := Some (w\<lparr>resizes := Suc (resizes w)\<rparr>)\<rparr>)"
  using assms by (simp add: resize_def Let_def)

lemma writeObservable_frame [simp]:
  "editor (writeObservable st) = editor st"
  "session (writeObservable st) = session st"
  "editorDom (writeObservable st) = editorDom st"
  by (simp_all add: writeObservable_def setSaveValue_def split: option.splits)

lemma writeObservable_shape:
  "writeObservable st = st\<lparr>obs_saves := obs_saves (writeObservable st),
                             obs_value := obs_value (writeObservable st)\<rparr>"
  by (simp add: writeObservable_def setSaveValue_def split: option.splits)

lemma run_handlers_built:
  assumes "editor st = Some w" "session st = Some sid" "editorDom st = Some d"
  shows "\<exists>n d' os ov. run_handlers hs st =
     (Inr (), st\<lparr>editor := Some (w\<lparr>resizes := n\<rparr>), editorDom := Some d',
                 obs_saves := os, obs_value := ov\<rparr>)"
  using assms
proof (induction hs arbitrary: st w d)
  case Nil
  have "st = st\<lparr>editor := Some (w\<lparr>resizes := resizes w\<rparr>), editorDom := Some d,
                 obs_saves := obs_saves st, obs_value := obs_value st\<rparr>"
    using Nil by simp
  then show ?case by (metis run_handlers.simps(1))
next
  case (Cons h hs)
  show ?case
  proof (cases h)
    case Resize
    let ?d1 = "d\<lparr>style_width := (if width (settledSize st w) = 0 then Auto
                                     else Px (width (settledSize st w))),
                   style_height := Px (height (settledSize st w))\<rparr>"
    let ?w1 = "w\<lparr>resizes := Suc (resizes w)\<rparr>"
    let ?st1 = "st\<lparr>editorDom := Some ?d1, editor := Some ?w1\<rparr>"
    have r: "resize st = (Inr (), ?st1)"
      using Cons.prems by (rule resize_built)
    have "\<exists>n d' os ov. run_handlers hs ?st1 =
       (Inr (), ?st1\<lparr>editor := Some (?w1\<lparr>resizes := n\<rparr>), editorDom := Some d',
                 obs_saves := os, obs_value := ov\<rparr>)"
      by (rule Cons.IH [of ?st1 ?w1 ?d1]) (use Cons.prems in simp_all)
    then obtain n d' os ov where "run_handlers hs ?st1 =
       (Inr (), ?st1\<lparr>editor := Some (?w1\<lparr>resizes := n\<rparr>), editorDom := Some d',
                 obs_saves := os, obs_value := ov\<rparr>)" by blast
    with r Resize have "run_handlers (h # hs) st =
       (Inr (), st\<lparr>editor := Some (w\<lparr>resizes := n\<rparr>), editorDom := Some d',
                 obs_saves := os, obs_value := ov\<rparr>)" by simp
    then show ?thesis by blast
  next
    case WriteObservable
    let ?st1 = "writeObservable st"
    have "\<exists>n d' os ov. run_handlers hs ?st1 =
       (Inr (), ?st1\<lparr>editor := Some (w\<lparr>resizes := n\<rparr>), editorDom := Some d',
                 obs_saves := os, obs_value := ov\<rparr>)"
      by (rule Cons.IH [of ?st1 w d]) (use Cons.prems in simp_all)
    then obtain n d' os ov where "run_handlers hs ?st1 =
       (Inr (), ?st1\<lparr>editor := Some (w\<lparr>resizes := n\<rparr>), editorDom := Some d',
                 obs_saves := os, obs_value := ov\<rparr>)" by blast
    with WriteObservable have "run_handlers (h # hs) st =
       (Inr (), st\<lparr>editor := Some (w\<lparr>resizes := n\<rparr>), editorDom := Some d',
                 obs_saves := os, obs_value := ov\<rparr>)"
      by (subst (asm) (2) writeObservable_shape) simp
    then show ?thesis by blast
  qed
qed

lemma setValue_built:
  assumes "editor st = Some w" "session st = Some sid" "editorDom st = Some d"
  shows "\<exists>n d' os ov. setValue val p st =
     (Inr (),
      st\<lparr>editor :=
           Some (let w' = (w_setValue val (if p = Some 0 then - 1 else 1) w)\<lparr>resizes := n\<rparr>
                 in case p of
                      None \<Rightarrow> w'
                    | Some q \<Rightarrow>
                        if 0 < q \<and> q < int (length val)
                        then (case indexToPosition (length (newLine w')) (doc_lines w') (nat q) of
                                (r, c) \<Rightarrow> moveCursorTo r c w')
                        else w'),
         editorDom := Some d', obs_saves := os, obs_value := ov\<rparr>)"
proof -
  let ?w' = "w_setValue val (if p = Some 0 then - 1 else 1) w"
  let ?st1 = "st\<lparr>editor := Some ?w'\<rparr>"
  have "\<exists>n d' os ov.
          (if w_getValue ?w' \<noteq> w_getValue w then run_handlers (on_change ?w') ?st1
           else (Inr (), ?st1)) =
          (Inr (), ?st1\<lparr>editor := Some (?w'\<lparr>resizes := n\<rparr>), editorDom := Some d',
                        obs_saves := os, obs_value := ov\<rparr>)"
  proof (cases "w_getValue ?w' \<noteq> w_getValue w")
    case True
    have "\<exists>n d' os ov. run_handlers (on_change ?w') ?st1 =
          (Inr (), ?st1\<lparr>editor := Some (?w'\<lparr>resizes := n\<rparr>), editorDom := Some d',
                        obs_saves := os, obs_value := ov\<rparr>)"
      by (rule run_handlers_built [of ?st1 ?w' sid d]) (use assms in simp_all)
    with True show ?thesis by simp
  next
    case False
    have "?st1 = ?st1\<lparr>editor := Some (?w'\<lparr>resizes := resizes ?w'\<rparr>), editorDom := Some d,
                        obs_saves := obs_saves ?st1, obs_value := obs_value ?st1\<rparr>"
      using assms by simp
    with False show ?thesis
      by (intro exI [of _ "resizes ?w'"] exI [of _ d] exI [of _ "obs_saves st"]
                exI [of _ "obs_value st"]) simp
  qed
  then obtain n d' os ov where h:
    "(if w_getValue ?w' \<noteq> w_getValue w then run_handlers (on_change ?w') ?st1
      else (Inr (), ?st1)) =
     (Inr (), ?st1\<lparr>editor := Some (?w'\<lparr>resizes := n\<rparr>), editorDom := Some d',
                   obs_saves := os, obs_value := ov\<rparr>)"
    by blast
  have "setValue val p st =
     (Inr (),
      st\<lparr>editor :=
           Some (let w' = ?w'\<lparr>resizes := n\<rparr>
                 in case p of
                      None \<Rightarrow> w'
                    | Some q \<Rightarrow>
                        if 0 < q \<and> q < int (length val)
                        then (case indexToPosition (length (newLine w')) (doc_lines w') (nat q) of
                                (r, c) \<Rightarrow> moveCursorTo r c w')
                        else w'),
         editorDom := Some d', obs_saves := os, obs_value := ov\<rparr>)"
  proof -
    let ?st2 = "?st1\<lparr>editor := Some (?w'\<lparr>resizes := n\<rparr>), editorDom := Some d',
                   obs_saves := os, obs_value := ov\<rparr>"
    have e2: "editor ?st2 = Some (?w'\<lparr>resizes := n\<rparr>)" and s2: "session ?st2 = Some sid"
      using assms by simp_all
    show ?thesis
      unfolding setValue_def Let_def
      apply (simp only: assms option.case h prod.case sum.case e2 s2)
      apply (cases p)
       apply (simp_all split: prod.splits)
      done
  qed
  then show ?thesis by blast
qed

subsection \<open>Frames and invariants\<close>

lemma frame_refl [simp]: "frame st st"
  by (simp add: frame_def)

lemma frame_trans: "frame st st1 \<Longrightarrow> frame st1 st2 \<Longrightarrow> frame st st2"
  by (simp add: frame_def)

lemma rest_fields:
  "observable (rest st) = observable st"
  "saveValueOnBlurEvent (rest st) = saveValueOnBlurEvent st"
  "calcSize (rest st) = calcSize st"
  "gristDoc (rest st) = gristDoc st"
  "session (rest st) = session st"
  "setupCallback (rest st) = setupCallback st"
  "setupTimer (rest st) = setupTimer st"
  "textPadding (rest st) = textPadding st"
  "fullDom (rest st) = fullDom st"
  "timers (rest st) = timers st"
  "next_id (rest st) = next_id st"
  "disposables (rest st) = disposables st"
  "subscriptions (rest st) = subscriptions st"
  "metrics_of (rest st) = metrics_of st"
  by (simp_all add: rest_def)

lemma frame_fields:
  assumes "frame st st'"
  shows "observable st' = observable st"
    and "saveValueOnBlurEvent st' = saveValueOnBlurEvent st"
    and "calcSize st' = calcSize st"
    and "gristDoc st' = gristDoc st"
    and "session st' = session st"
    and "setupCallback st' = setupCallback st"
    and "setupTimer st' = setupTimer st"
    and "textPadding st' = textPadding st"
    and "fullDom st' = fullDom st"
    and "timers st' = timers st"
    and "next_id st' = next_id st"
    and "disposables st' = disposables st"
    and "subscriptions st' = subscriptions st"
    and "metrics_of st' = metrics_of st"
    and "editor st' = None \<longleftrightarrow> editor st = None"
    and "editorDom st' = None \<longleftrightarrow> editorDom st = None"
    and "map_option env_editor (editorDom st') = map_option env_editor (editorDom st)"
proof -
  from assms have r: "rest st' = rest st" by (simp add: frame_def)
  show "observable st' = observable st" using arg_cong [OF r, of observable] by (simp add: rest_fields)
  show "saveValueOnBlurEvent st' = saveValueOnBlurEvent st" using arg_cong [OF r, of saveValueOnBlurEvent] by (simp add: rest_fields)
  show "calcSize st' = calcSize st" using arg_cong [OF r, of calcSize] by (simp add: rest_fields)
  show "gristDoc st' = gristDoc st" using arg_cong [OF r, of gristDoc] by (simp add: rest_fields)
  show "session st' = session st" using arg_cong [OF r, of session] by (simp add: rest_fields)
  show "setupCallback st' = setupCallback st" using arg_cong [OF r, of setupCallback] by (simp add: rest_fields)
  show "setupTimer st' = setupTimer st" using arg_cong [OF r, of setupTimer] by (simp add: rest_fields)
  show "textPadding st' = textPadding st" using arg_cong [OF r, of textPadding] by (simp add: rest_fields)
  show "fullDom st' = fullDom st" using arg_cong [OF r, of fullDom] by (simp add: rest_fields)
  show "timers st' = timers st" using arg_cong [OF r, of timers] by (simp add: rest_fields)
  show "next_id st' = next_id st" using arg_cong [OF r, of next_id] by (simp add: rest_fields)
  show "disposables st' = disposables st" using arg_cong [OF r, of disposables] by (simp add: rest_fields)
  show "subscriptions st' = subscriptions st" using arg_cong [OF r, of subscriptions] by (simp add: rest_fields)
  show "metrics_of st' = metrics_of st" using arg_cong [OF r, of metrics_of] by (simp add: rest_fields)
  show "editor st' = None \<longleftrightarrow> editor st = None" using assms by (simp add: frame_def)
  show e: "map_option env_editor (editorDom st') = map_option env_editor (editorDom st)"
    using assms by (simp add: frame_def)
  show "editorDom st' = None \<longleftrightarrow> editorDom st = None"
    using e by (cases "editorDom st'"; cases "editorDom st") simp_all
qed

lemma frame_resize: "resize st = (r, st') \<Longrightarrow> frame st st'"
  by (auto simp: resize_def Let_def frame_def rest_def split: option.splits)

lemma frame_writeObservable [simp]: "frame st (writeObservable st)"
  by (simp add: writeObservable_def setSaveValue_def frame_def rest_def split: option.splits)

lemma frame_run_handlers:
  "run_handlers hs st = (r, st') \<Longrightarrow> frame st st'"
proof (induction hs arbitrary: st)
  case Nil
  then show ?case by auto
next
  case (Cons h hs)
  show ?case
  proof (cases h)
    case Resize
    obtain r1 st1 where rs: "resize st = (r1, st1)" by (cases "resize st")
    with Cons Resize show ?thesis
      by (cases r1) (auto dest: frame_resize intro: frame_trans)
  next
    case WriteObservable
    with Cons show ?thesis
      by (auto intro: frame_trans [OF frame_writeObservable])
  qed
qed

lemma frame_update_editor:
  "editor st \<noteq> None \<Longrightarrow> frame st (st\<lparr>editor := Some w\<rparr>)"
  by (simp add: frame_def rest_def)

lemma frame_setValue:
  "setValue val p st = (r, st') \<Longrightarrow> frame st st'"
proof (cases "editor st")
  case None
  assume "setValue val p st = (r, st')"
  with None show ?thesis by (auto simp add: setValue_def)
next
  case (Some w)
  assume sv: "setValue val p st = (r, st')"
  let ?w' = "w_setValue val (if p = Some 0 then - 1 else 1) w"
  let ?st1 = "st\<lparr>editor := Some ?w'\<rparr>"
  have f1: "frame st ?st1" using Some by (simp add: frame_update_editor)
  obtain r2 st2 where h: "(if w_getValue ?w' \<noteq> w_getValue w then run_handlers (on_change ?w') ?st1
                    else (Inr (), ?st1)) = (r2, st2)"
    by (cases "if w_getValue ?w' \<noteq> w_getValue w then run_handlers (on_change ?w') ?st1
                    else (Inr (), ?st1)")
  then have "frame ?st1 st2"
    by (auto split: if_splits dest: frame_run_handlers)
  with f1 have f2: "frame st st2" by (rule frame_trans)
  from sv Some h have "frame st2 st'"
    unfolding setValue_def Let_def
    by (simp only: option.case h)
       (auto split: sum.splits option.splits if_splits prod.splits intro!: frame_update_editor)
  with f2 show ?thesis by (rule frame_trans)
qed


lemma frame_enable: "enable b st = (r, st') \<Longrightarrow> frame st st'"
  by (auto simp: enable_def split: option.splits intro!: frame_update_editor)

lemma frame_attachCommandGroup: "attachCommandGroup ks st = (r, st') \<Longrightarrow> frame st st'"
  by (auto simp: attachCommandGroup_def split: option.splits list.splits
           intro!: frame_update_editor)

lemma frame_attachSaveCommand: "attachSaveCommand st = (r, st') \<Longrightarrow> frame st st'"
  by (auto simp: attachSaveCommand_def split: option.splits intro!: frame_update_editor)

lemma frame_adjustContentToWidth: "adjustContentToWidth st = (r, st') \<Longrightarrow> frame st st'"
  by (auto simp: adjustContentToWidth_def Let_def split: option.splits if_splits
           intro!: frame_update_editor)

lemma frame_setFontSize: "setFontSize px st = (r, st') \<Longrightarrow> frame st st'"
  by (auto simp: setFontSize_def split: option.splits
           dest!: frame_resize intro: frame_trans [OF frame_update_editor])

lemma frame_blur: "blur st = (r, st') \<Longrightarrow> frame st st'"
  by (auto simp: blur_def split: option.splits dest: frame_run_handlers)

lemma frame_exec_command: "frame st (exec_command n st)"
  by (simp add: exec_command_def split: option.splits command_exec.splits)

lemma frame_notify: "notify els v st = (r, st') \<Longrightarrow> frame st st'"
proof (induction els arbitrary: st)
  case Nil
  then show ?case by auto
next
  case (Cons el els)
  obtain r1 st1 where h: "(case v of None \<Rightarrow> (Inr (), st) | Some t \<Rightarrow> setValue t None st) = (r1, st1)"
    by (cases "case v of None \<Rightarrow> (Inr (), st) | Some t \<Rightarrow> setValue t None st")
  then have f1: "frame st st1"
    by (auto split: option.splits dest: frame_setValue)
  from Cons.prems h have "frame st1 st'"
    by (cases r1) (auto dest: Cons.IH)
  with f1 show ?case by (rule frame_trans)
qed

lemma frame_observable_changes: "observable_changes v st = (r, st') \<Longrightarrow> frame st st'"
proof -
  assume "observable_changes v st = (r, st')"
  then have "frame (st\<lparr>obs_value := v\<rparr>) st'"
    by (auto simp: observable_changes_def dest: frame_notify)
  moreover have "frame st (st\<lparr>obs_value := v\<rparr>)" by (simp add: frame_def rest_def)
  ultimately show ?thesis by (rule frame_trans [rotated])
qed


lemma rest_absorb [simp]:
  "rest (st\<lparr>editor := e\<rparr>) = rest st"
  "rest (st\<lparr>editorDom := d\<rparr>) = rest st"
  "rest (st\<lparr>obs_saves := os\<rparr>) = rest st"
  "rest (st\<lparr>obs_value := ov\<rparr>) = rest st"
  by (simp_all add: rest_def)

lemma rest_commute:
  "rest (st\<lparr>subscriptions := s\<rparr>) = (rest st)\<lparr>subscriptions := s\<rparr>"
  "rest (st\<lparr>next_id := n\<rparr>) = (rest st)\<lparr>next_id := n\<rparr>"
  "rest (st\<lparr>disposables := ds\<rparr>) = (rest st)\<lparr>disposables := ds\<rparr>"
  "rest (st\<lparr>session := se\<rparr>) = (rest st)\<lparr>session := se\<rparr>"
  "rest (st\<lparr>setupCallback := cb\<rparr>) = (rest st)\<lparr>setupCallback := cb\<rparr>"
  "rest (st\<lparr>setupTimer := t\<rparr>) = (rest st)\<lparr>setupTimer := t\<rparr>"
  "rest (st\<lparr>timers := ts\<rparr>) = (rest st)\<lparr>timers := ts\<rparr>"
  "rest (st\<lparr>fullDom := fd\<rparr>) = (rest st)\<lparr>fullDom := fd\<rparr>"
  by (simp_all add: rest_def)



lemma bind_observable_built:
  assumes "editor st = Some w" "session st = Some sid" "editorDom st = Some d"
  shows "\<exists>st' w'. bind_observable el st = (Inr (), st') \<and>
           rest st' = rest (st\<lparr>subscriptions :=
                                 subscriptions st @ (if observable st = None then [] else [el])\<rparr>) \<and>
           editor st' = Some w' \<and>
           map_option env_editor (editorDom st') = Some (env_editor d) \<and>
           wid w' = wid w \<and>
           on_blur w' = on_blur w @
             (if observable st \<noteq> None \<and> saveValueOnBlurEvent st then [WriteObservable] else [])"
proof (cases "observable st")
  case None
  with assms show ?thesis by (simp add: bind_observable_def)
next
  case (Some ob)
  have "\<exists>st1 w1. (case obs_value st of None \<Rightarrow> (Inr (), st) | Some v \<Rightarrow> setValue v None st) = (Inr (), st1)
          \<and> frame st st1 \<and> editor st1 = Some w1 \<and> on_blur w1 = on_blur w \<and> wid w1 = wid w"
  proof (cases "obs_value st")
    case None
    with assms show ?thesis by simp
  next
    case (Some v)
    from setValue_built [OF assms, of v None] obtain n d' os ov where
      sv: "setValue v None st =
        (Inr (), st\<lparr>editor := Some ((w_setValue v 1 w)\<lparr>resizes := n\<rparr>),
                    editorDom := Some d', obs_saves := os, obs_value := ov\<rparr>)"
      by (auto simp: Let_def)
    then have "frame st (st\<lparr>editor := Some ((w_setValue v 1 w)\<lparr>resizes := n\<rparr>),
                    editorDom := Some d', obs_saves := os, obs_value := ov\<rparr>)"
      by (rule frame_setValue)
    with sv Some show ?thesis by (simp add: w_setValue_def Let_def)
  qed
  then obtain st1 w1 where
    h: "(case obs_value st of None \<Rightarrow> (Inr (), st) | Some v \<Rightarrow> setValue v None st) = (Inr (), st1)"
    and f: "frame st st1" and e: "editor st1 = Some w1" and b: "on_blur w1 = on_blur w"
    and i: "wid w1 = wid w"
    by blast
  from f have r: "rest st1 = rest st" by (simp add: frame_def)
  from f assms have d1: "map_option env_editor (editorDom st1) = Some (env_editor d)"
    by (simp add: frame_def)
  note ff = frame_fields [OF f]
  have rs: "rest (st1\<lparr>subscriptions := subscriptions st1 @ [el]\<rparr>) =
            rest (st\<lparr>subscriptions := subscriptions st @ [el]\<rparr>)"
    using r ff(13) by (simp add: rest_commute)
  show ?thesis
    unfolding bind_observable_def Let_def
    apply (simp only: Some option.case h prod.case sum.case)
    using Some e b i d1 ff(1,2) rs
    apply (simp add: rest_commute)
    done
qed

lemma configure_ok:
  "\<exists>st' w'. configure i d w0 st = (Inr (), st') \<and>
           setupCallback st' = None \<and>
           rest (st'\<lparr>setupCallback := None\<rparr>) =
             rest (st\<lparr>disposables := disposables st @ [i],
                       session := Some i,
                       setupCallback := None,
                       subscriptions :=
                         subscriptions st @ (if observable st = None then [] else [elem_id d])\<rparr>) \<and>
           editor st' = Some w' \<and>
           map_option env_editor (editorDom st') = Some (Some i) \<and>
           (setupCallback st = None \<longrightarrow>
              wid w' = wid w0 \<and>
              on_blur w' =
                on_blur w0 @
                (if observable st \<noteq> None \<and> saveValueOnBlurEvent st then [WriteObservable]
                 else []))"
proof -
  let ?w1 = "if gristDoc st \<noteq> None then w0\<lparr>completer := True\<rparr> else w0"
  let ?w2 = "?w1\<lparr>enableLiveAutocompletion := True, mode := ''ace/mode/python'',
                       theme := ''ace/theme/chrome'', showGutter := False, tabSize := 2,
                       useWrapMode := True, on_change := on_change ?w1 @ [Resize],
                       blockScrolling := True, fontSize := 11\<rparr>"
  let ?d1 = "d\<lparr>env_editor := Some i\<rparr>"
  let ?st1 = "st\<lparr>disposables := disposables st @ [i],
                   editor := Some ?w2, session := Some i, editorDom := Some ?d1\<rparr>"
  have e1: "editor ?st1 = Some ?w2" and s1: "session ?st1 = Some i"
    and d1: "editorDom ?st1 = Some ?d1"
    by simp_all
  have b2: "on_blur ?w2 = on_blur w0" "wid ?w2 = wid w0" by simp_all
  obtain r2 st2 where rs: "resize ?st1 = (r2, st2)" by (cases "resize ?st1")
  from resize_built [OF e1 s1 d1] rs have r2: "r2 = Inr ()"
    and e2: "editor st2 = Some (?w2\<lparr>resizes := Suc (resizes ?w2)\<rparr>)"
    by auto
  from rs have f2: "frame ?st1 st2" by (rule frame_resize)
  note ff2 = frame_fields [OF f2]
  from ff2(5) have s2: "session st2 = Some i" by simp
  from ff2(17) obtain dd where d2': "editorDom st2 = Some dd" and env2: "env_editor dd = Some i"
    by (cases "editorDom st2") auto
  from bind_observable_built [OF e2 s2 d2', of "elem_id d"] obtain st3 w3 where
    bo: "bind_observable (elem_id d) st2 = (Inr (), st3)"
    and r3: "rest st3 = rest (st2\<lparr>subscriptions :=
                 subscriptions st2 @ (if observable st2 = None then [] else [elem_id d])\<rparr>)"
    and e3: "editor st3 = Some w3"
    and d3: "map_option env_editor (editorDom st3) = Some (env_editor dd)"
    and i3: "wid w3 = wid (?w2\<lparr>resizes := Suc (resizes ?w2)\<rparr>)"
    and b3: "on_blur w3 = on_blur (?w2\<lparr>resizes := Suc (resizes ?w2)\<rparr>) @
             (if observable st2 \<noteq> None \<and> saveValueOnBlurEvent st2 then [WriteObservable] else [])"
    by blast
  from f2 have rr2: "rest st2 = rest ?st1" by (simp add: frame_def)
  have o2: "observable st2 = observable st" "saveValueOnBlurEvent st2 = saveValueOnBlurEvent st"
    "subscriptions st2 = subscriptions st"
    using ff2(1,2,13) by simp_all
  have r3': "rest st3 =
             rest (st\<lparr>disposables := disposables st @ [i],
                       session := Some i,
                       subscriptions :=
                         subscriptions st @ (if observable st = None then [] else [elem_id d])\<rparr>)"
    using r3 rr2 o2 by (simp add: rest_commute)
  have cb3: "setupCallback st3 = setupCallback st"
    using arg_cong [OF r3', of setupCallback] by (simp add: rest_fields)
  have su: "configure i d w0 st =
      (case setupCallback st3 of
         None \<Rightarrow> (Inr (), st3)
       | Some cb \<Rightarrow> (Inr (), st3\<lparr>editor := map_option cb (editor st3), setupCallback := None\<rparr>))"
    unfolding configure_def Let_def
    using rs r2 bo
    by (simp only: option.case prod.case sum.case)
  show ?thesis
  proof (cases "setupCallback st")
    case None
    with su cb3 r3' e3 d3 env2 b3 i3 b2 o2 show ?thesis by (simp add: rest_commute)
  next
    case (Some cb)
    with su cb3 r3' e3 d3 env2 show ?thesis by (simp add: rest_commute)
  qed
qed

lemma configure_fields:
  assumes "configure i d w0 st = (r, st')"
  shows "r = Inr ()"
    and "observable st' = observable st"
    and "saveValueOnBlurEvent st' = saveValueOnBlurEvent st"
    and "textPadding st' = textPadding st"
    and "timers st' = timers st"
    and "setupTimer st' = setupTimer st"
    and "disposables st' = disposables st @ [i]"
    and "next_id st' = next_id st"
    and "session st' = Some i"
    and "setupCallback st' = None"
    and "editor st' \<noteq> None"
    and "map_option env_editor (editorDom st') = Some (Some i)"
proof -
  from configure_ok [of i d w0 st] assms obtain w' where
    r: "r = Inr ()" and cb: "setupCallback st' = None"
    and rr: "rest (st'\<lparr>setupCallback := None\<rparr>) =
             rest (st\<lparr>disposables := disposables st @ [i],
                       session := Some i,
                       setupCallback := None,
                       subscriptions :=
                         subscriptions st @ (if observable st = None then [] else [elem_id d])\<rparr>)"
    and e: "editor st' = Some w'"
    and d: "map_option env_editor (editorDom st') = Some (Some i)"
    by auto
  show "r = Inr ()" by (rule r)
  show "setupCallback st' = None" by (rule cb)
  show "editor st' \<noteq> None" using e by simp
  show "map_option env_editor (editorDom st') = Some (Some i)" by (rule d)
  show "observable st' = observable st" using arg_cong [OF rr, of observable] by (simp add: rest_fields)
  show "saveValueOnBlurEvent st' = saveValueOnBlurEvent st"
    using arg_cong [OF rr, of saveValueOnBlurEvent] by (simp add: rest_fields)
  show "textPadding st' = textPadding st" using arg_cong [OF rr, of textPadding] by (simp add: rest_fields)
  show "timers st' = timers st" using arg_cong [OF rr, of timers] by (simp add: rest_fields)
  show "setupTimer st' = setupTimer st" using arg_cong [OF rr, of setupTimer] by (simp add: rest_fields)
  show "disposables st' = disposables st @ [i]"
    using arg_cong [OF rr, of disposables] by (simp add: rest_fields)
  show "next_id st' = next_id st" using arg_cong [OF rr, of next_id] by (simp add: rest_fields)
  show "session st' = Some i" using arg_cong [OF rr, of session] by (simp add: rest_fields)
qed

text \<open>The four ways \<^verbatim>\<open>_setup\<close> can go.\<close>

lemma setup_widget_cases:
  obtains (no_element) "editorDom st = None" "setup_widget st = (Inl TypeError, st)"
  | (fresh) d where "editorDom st = Some d" "env_editor d = None"
      "setup_widget st =
         configure (next_id st) d (new_widget (next_id st) (elem_id d))
           (st\<lparr>next_id := Suc (next_id st)\<rparr>)"
  | (no_widget) d i where "editorDom st = Some d" "env_editor d = Some i" "editor st = None"
      "setup_widget st = (Inl TypeError, st)"
  | (again) d i w where "editorDom st = Some d" "env_editor d = Some i" "editor st = Some w"
      "setup_widget st = configure i d w st"
proof (cases "editorDom st")
  case None
  then show ?thesis using no_element by (simp add: setup_widget_def)
next
  case (Some d)
  show ?thesis
  proof (cases "env_editor d")
    case None
    with Some show ?thesis using fresh [of d] by (simp add: setup_widget_def ace_edit_def)
  next
    case i: (Some i)
    show ?thesis
    proof (cases "editor st")
      case None
      with Some i show ?thesis using no_widget [of d i] by (simp add: setup_widget_def ace_edit_def)
    next
      case w: (Some w)
      with Some i show ?thesis using again [of d i w] by (simp add: setup_widget_def ace_edit_def)
    qed
  qed
qed

lemma setup_widget_fields:
  assumes "editorDom st = Some d" "env_editor d = None" "setup_widget st = (r, st')"
  shows "r = Inr ()"
    and "observable st' = observable st"
    and "saveValueOnBlurEvent st' = saveValueOnBlurEvent st"
    and "textPadding st' = textPadding st"
    and "timers st' = timers st"
    and "setupTimer st' = setupTimer st"
    and "disposables st' = disposables st @ [next_id st]"
    and "next_id st' = Suc (next_id st)"
    and "session st' = Some (next_id st)"
    and "setupCallback st' = None"
    and "editor st' \<noteq> None"
    and "map_option env_editor (editorDom st') = Some (Some (next_id st))"
proof -
  from assms have c: "configure (next_id st) d (new_widget (next_id st) (elem_id d))
           (st\<lparr>next_id := Suc (next_id st)\<rparr>) = (r, st')"
    by (simp add: setup_widget_def ace_edit_def)
  note f = configure_fields [OF c]
  show "r = Inr ()" by (rule f(1))
  show "observable st' = observable st" using f(2) by simp
  show "saveValueOnBlurEvent st' = saveValueOnBlurEvent st" using f(3) by simp
  show "textPadding st' = textPadding st" using f(4) by simp
  show "timers st' = timers st" using f(5) by simp
  show "setupTimer st' = setupTimer st" using f(6) by simp
  show "disposables st' = disposables st @ [next_id st]" using f(7) by simp
  show "next_id st' = Suc (next_id st)" using f(8) by simp
  show "session st' = Some (next_id st)" using f(9) by simp
  show "setupCallback st' = None" using f(10) by simp
  show "editor st' \<noteq> None" using f(11) by simp
  show "map_option env_editor (editorDom st') = Some (Some (next_id st))" using f(12) by simp
qed

lemma kept_frame: "frame st st' \<Longrightarrow> kept st st'"
  using frame_fields [of st st']
  by (auto simp: kept_def isBuilt_def built_def split: option.splits)

lemma kept_configure:
  assumes "configure i d w0 st = (r, st')"
  shows "kept st st'"
  using configure_fields [OF assms]
  by (auto simp: kept_def isBuilt_def built_def split: option.splits)

lemma kept_next_id: "kept st (st\<lparr>next_id := n\<rparr>)"
  by (auto simp: kept_def isBuilt_def built_def split: option.splits)

lemma kept_trans: "kept st st1 \<Longrightarrow> kept st1 st2 \<Longrightarrow> kept st st2"
  by (auto simp: kept_def)

lemma kept_refl [simp]: "kept st st"
  by (simp add: kept_def)

lemma kept_setup:
  assumes "setup_widget st = (r, st')"
  shows "kept st st'"
proof (cases st rule: setup_widget_cases)
  case no_element
  with assms show ?thesis by simp
next
  case (fresh d)
  with assms show ?thesis
    by (auto intro: kept_trans [OF kept_next_id kept_configure])
next
  case (no_widget d i)
  with assms show ?thesis by simp
next
  case (again d i w)
  with assms show ?thesis by (auto intro: kept_configure)
qed

lemma kept_timers: "kept st (st\<lparr>timers := ts, setupTimer := t\<rparr>)" "kept st (st\<lparr>timers := ts\<rparr>)"
  by (auto simp: kept_def isBuilt_def built_def split: option.splits)

lemma kept_buildDom: "kept st (buildDom cb st)"
  by (auto simp: kept_def buildDom_def isBuilt_def built_def split: option.splits)

lemma kept_step: "kept st (step a st)"
proof (cases a)
  case (BuildDom cb)
  then show ?thesis by (simp add: kept_buildDom)
next
  case OnAttach
  obtain r st' where h: "onAttach st = (r, st')" by (cases "onAttach st")
  then have "kept st st'"
    by (auto simp: onAttach_def split: option.splits if_splits
             intro: kept_trans [OF kept_timers(1) kept_setup] kept_frame)
  with OnAttach h show ?thesis by simp
next
  case (TimerFires t)
  obtain r st' where h: "timer_fires t st = (r, st')" by (cases "timer_fires t st")
  then have "kept st st'"
    by (auto simp: timer_fires_def split: if_splits
             intro: kept_trans [OF kept_timers(2) kept_setup] kept_frame)
  with TimerFires h show ?thesis by simp
next
  case DoWriteObservable
  then show ?thesis by (simp add: kept_frame)
next
  case (SetValue val p)
  then show ?thesis using frame_setValue [of val p st] by (cases "setValue val p st") (simp add: kept_frame)
next
  case (Enable b)
  then show ?thesis using frame_enable [of b st] by (cases "enable b st") (simp add: kept_frame)
next
  case (AttachCommandGroup ks)
  then show ?thesis using frame_attachCommandGroup [of ks st]
    by (cases "attachCommandGroup ks st") (simp add: kept_frame)
next
  case AttachSaveCommand
  then show ?thesis using frame_attachSaveCommand [of st]
    by (cases "attachSaveCommand st") (simp add: kept_frame)
next
  case AdjustContentToWidth
  then show ?thesis using frame_adjustContentToWidth [of st]
    by (cases "adjustContentToWidth st") (simp add: kept_frame)
next
  case (SetFontSize px)
  then show ?thesis using frame_setFontSize [of px st]
    by (cases "setFontSize px st") (simp add: kept_frame)
next
  case DoResize
  then show ?thesis using frame_resize [of st] by (cases "resize st") (simp add: kept_frame)
next
  case Blur
  then show ?thesis using frame_blur [of st] by (cases "blur st") (simp add: kept_frame)
next
  case (ExecCommand n)
  then show ?thesis by (simp add: kept_frame frame_exec_command)
next
  case (ObservableChanges v)
  then show ?thesis using frame_observable_changes [of v st]
    by (cases "observable_changes v st") (simp add: kept_frame)
qed

lemma kept_run: "kept st (run acts st)"
proof (induction acts arbitrary: st)
  case Nil
  show ?case by (simp add: run_def kept_def)
next
  case (Cons a acts)
  have "kept (step a st) (run acts (step a st))" by (rule Cons.IH)
  with kept_step [of st a] have "kept st (run acts (step a st))" by (rule kept_trans)
  then show ?case by (simp add: run_def)
qed

lemma reachable_built:
  "isBuilt (run acts (AceEditor opts b)) \<Longrightarrow> built (run acts (AceEditor opts b))"
  using kept_run [of "AceEditor opts b" acts]
  by (simp add: kept_def isBuilt_def AceEditor_def)

lemma reachable_textPadding: "textPadding (run acts (AceEditor opts b)) = 10"
  using kept_run [of "AceEditor opts b" acts]
  by (simp add: kept_def AceEditor_def)


subsection \<open>The number of widgets\<close>

lemma bounded_frame:
  assumes "frame st st'" "widgets_bounded n st"
  shows "widgets_bounded n st'"
proof -
  note f = frame_fields [OF assms(1)]
  from f(12) have l: "live_widgets st' = live_widgets st" by (simp add: live_widgets_def)
  from f(17) assms(2) l show ?thesis
    by (cases "editorDom st"; cases "editorDom st'")
       (auto simp: widgets_bounded_def split: option.splits)
qed

lemma bounded_le: "widgets_bounded n st \<Longrightarrow> card (live_widgets st) \<le> n"
  by (auto simp: widgets_bounded_def split: option.splits)

lemma bounded_configure_fresh:
  assumes "editorDom st = Some d" "env_editor d = None" "widgets_bounded n st"
    and "configure i d w0 (st\<lparr>next_id := m\<rparr>) = (r, st')"
  shows "widgets_bounded n st'"
proof -
  note f = configure_fields [OF assms(4)]
  from f(7) have l: "live_widgets st' = insert i (live_widgets st)"
    by (simp add: live_widgets_def)
  have "card (insert i (live_widgets st)) \<le> Suc (card (live_widgets st))"
    by (simp add: card_insert_le_m1 live_widgets_def)
  with assms(1-3) l f(12) show ?thesis
    by (cases "editorDom st'") (auto simp: widgets_bounded_def split: option.splits)
qed

lemma bounded_configure_again:
  assumes "editorDom st = Some d" "env_editor d = Some i" "widgets_bounded n st"
    and "configure i d w0 st = (r, st')"
  shows "widgets_bounded n st'"
proof -
  note f = configure_fields [OF assms(4)]
  from assms(1-3) have i: "i \<in> live_widgets st" by (simp add: widgets_bounded_def)
  with f(7) have l: "live_widgets st' = live_widgets st"
    by (auto simp: live_widgets_def)
  with assms(1-3) i f(12) show ?thesis
    by (cases "editorDom st'") (auto simp: widgets_bounded_def split: option.splits)
qed

lemma bounded_setup:
  assumes "setup_widget st = (r, st')" "widgets_bounded n st"
  shows "widgets_bounded n st'"
proof (cases st rule: setup_widget_cases)
  case no_element
  with assms show ?thesis by simp
next
  case (fresh d)
  with assms show ?thesis by (auto intro: bounded_configure_fresh)
next
  case (no_widget d i)
  with assms show ?thesis by simp
next
  case (again d i w)
  with assms show ?thesis by (auto intro: bounded_configure_again)
qed

lemma bounded_timers:
  "widgets_bounded n (st\<lparr>timers := ts, setupTimer := t\<rparr>) = widgets_bounded n st"
  "widgets_bounded n (st\<lparr>timers := ts\<rparr>) = widgets_bounded n st"
  by (auto simp: widgets_bounded_def live_widgets_def split: option.splits)

lemma bounded_buildDom: "widgets_bounded n st \<Longrightarrow> widgets_bounded (Suc n) (buildDom cb st)"
  using bounded_le [of n st]
  by (auto simp: widgets_bounded_def buildDom_def live_widgets_def split: option.splits)

lemma bounded_step:
  assumes "widgets_bounded n st"
  shows "widgets_bounded (n + buildDom_calls [a]) (step a st)"
proof (cases a)
  case (BuildDom cb)
  with assms show ?thesis by (simp add: bounded_buildDom)
next
  case OnAttach
  obtain r st' where h: "onAttach st = (r, st')" by (cases "onAttach st")
  with assms have "widgets_bounded n st'"
    by (auto simp: onAttach_def bounded_timers split: option.splits if_splits
             dest!: bounded_setup [where n = n])
  with OnAttach h show ?thesis by simp
next
  case (TimerFires t)
  obtain r st' where h: "timer_fires t st = (r, st')" by (cases "timer_fires t st")
  with assms have "widgets_bounded n st'"
    by (auto simp: timer_fires_def bounded_timers split: if_splits
             dest!: bounded_setup [where n = n])
  with TimerFires h show ?thesis by simp
next
  case DoWriteObservable
  with assms show ?thesis by (simp add: bounded_frame [OF frame_writeObservable])
next
  case (SetValue val p)
  with assms show ?thesis using frame_setValue [of val p st]
    by (cases "setValue val p st") (auto intro: bounded_frame)
next
  case (Enable b)
  with assms show ?thesis using frame_enable [of b st]
    by (cases "enable b st") (auto intro: bounded_frame)
next
  case (AttachCommandGroup ks)
  with assms show ?thesis using frame_attachCommandGroup [of ks st]
    by (cases "attachCommandGroup ks st") (auto intro: bounded_frame)
next
  case AttachSaveCommand
  with assms show ?thesis using frame_attachSaveCommand [of st]
    by (cases "attachSaveCommand st") (auto intro: bounded_frame)
next
  case AdjustContentToWidth
  with assms show ?thesis using frame_adjustContentToWidth [of st]
    by (cases "adjustContentToWidth st") (auto intro: bounded_frame)
next
  case (SetFontSize px)
  with assms show ?thesis using frame_setFontSize [of px st]
    by (cases "setFontSize px st") (auto intro: bounded_frame)
next
  case DoResize
  with assms show ?thesis using frame_resize [of st]
    by (cases "resize st") (auto intro: bounded_frame)
next
  case Blur
  with assms show ?thesis using frame_blur [of st]
    by (cases "blur st") (auto intro: bounded_frame)
next
  case (ExecCommand n')
  with assms show ?thesis by (simp add: bounded_frame [OF frame_exec_command])
next
  case (ObservableChanges v)
  with assms show ?thesis using frame_observable_changes [of v st]
    by (cases "observable_changes v st") (auto intro: bounded_frame)
qed

lemma buildDom_calls_Cons:
  "buildDom_calls (a # acts) = buildDom_calls [a] + buildDom_calls acts"
  by (cases a) simp_all

lemma bounded_run:
  "widgets_bounded n st \<Longrightarrow> widgets_bounded (n + buildDom_calls acts) (run acts st)"
proof (induction acts arbitrary: st n)
  case Nil
  then show ?case by (simp add: run_def)
next
  case (Cons a acts)
  from bounded_step [OF Cons.prems, of a]
  have "widgets_bounded (n + buildDom_calls [a] + buildDom_calls acts) (run acts (step a st))"
    by (rule Cons.IH)
  then show ?case
    by (simp add: run_def buildDom_calls_Cons [of a acts] add.assoc)
qed


subsection \<open>The example, evaluated\<close>

lemmas eval_defs = example_editor_def example_options_def example_browser_def run_def AceEditor_def
  buildDom_def onAttach_def setup_widget_def ace_edit_def new_widget_def configure_def resize_def settledSize_def desiredSize_def
  contentWidth_def getContentWidth_def getContentHeight_def bind_observable_def setValue_def
  w_setValue_def w_getValue_def doc_end_def doc_start_def moveCursorTo_def clipPosition_def
  js_def isBuilt_def getValue_def Let_def writeObservable_def setSaveValue_def blur_def
  timer_fires_def is_break_def

lemma example_editor_reached:
  "example_editor = run [BuildDom None, OnAttach] (AceEditor (Some example_options) example_browser)"
  by (simp add: example_editor_def)

lemma example_editor_built: "isBuilt example_editor"
  by (simp add: eval_defs)

subsection \<open>Reading and writing the text\<close>

text \<open>
  C9: on a wrapper whose widget has not been set up, \<^verbatim>\<open>isBuilt\<close> is false and
  \<^verbatim>\<open>getValue\<close> returns \<^verbatim>\<open>null\<close>, which is falsy and not a string; it does not throw.
\<close>

theorem getValue_before_setup:
  assumes "editor st = None"
  shows "getValue st = Null \<and> \<not> truthy (getValue st) \<and> \<not> is_string (getValue st) \<and>
         \<not> isBuilt st"
  using assms by (simp add: getValue_def isBuilt_def)

theorem getValue_before_setup_witness:
  "editor (buildDom None (AceEditor (Some example_options) example_browser)) = None \<and>
   getValue (buildDom None (AceEditor (Some example_options) example_browser)) = Null \<and>
   \<not> isBuilt (buildDom None (AceEditor (Some example_options) example_browser))"
  using getValue_before_setup [of "buildDom None (AceEditor (Some example_options) example_browser)"]
  by (simp add: buildDom_def AceEditor_def)

text \<open>
  C3: on a built wrapper, reached from its construction by any calls and events,
  \<^verbatim>\<open>setValue\<close> of a string without control characters returns normally, whatever the
  cursor position it is given, and \<^verbatim>\<open>getValue\<close> then returns that string.
\<close>

theorem setValue_getValue_roundtrip:
  assumes "st = run acts (AceEditor opts b)" and "isBuilt st"
    and "\<forall>c \<in> set val. \<not> is_control c"
  shows "fst (setValue val p st) = Inr () \<and> getValue (snd (setValue val p st)) = JStr val"
proof -
  from assms(1,2) have "built st" by (simp add: reachable_built)
  then obtain w sid d where
    f: "editor st = Some w" "session st = Some sid" "editorDom st = Some d"
    by (auto simp: built_def split: option.splits)
  from setValue_built [OF f, of val p] obtain n d' os ov where
    "setValue val p st =
     (Inr (),
      st\<lparr>editor :=
           Some (let w' = (w_setValue val (if p = Some 0 then - 1 else 1) w)\<lparr>resizes := n\<rparr>
                 in case p of
                      None \<Rightarrow> w'
                    | Some q \<Rightarrow>
                        if 0 < q \<and> q < int (length val)
                        then (case indexToPosition (length (newLine w')) (doc_lines w') (nat q) of
                                (r, c) \<Rightarrow> moveCursorTo r c w')
                        else w'),
         editorDom := Some d', obs_saves := os, obs_value := ov\<rparr>)"
    by blast
  then show ?thesis
    using split_doc_one_line [OF assms(3)]
    by (simp add: getValue_def w_getValue_def w_setValue_def moveCursorTo_def Let_def
             split: option.splits prod.splits)
qed

theorem setValue_getValue_roundtrip_witness:
  "isBuilt example_editor \<and>
   getValue (snd (setValue (js ''x = 2'') None example_editor)) = JStr (js ''x = 2'')"
proof -
  have c: "\<forall>c \<in> set (js ''x = 2''). \<not> is_control c"
    by (simp add: js_def is_control_def)
  from setValue_getValue_roundtrip [OF example_editor_reached example_editor_built c, of None]
    example_editor_built
  show ?thesis by blast
qed

text \<open>
  C4, as stated: for every string and every offset inside it the cursor is left at the row
  and column of that character index. It fails for a text whose line ends differ in length:
  in a, LF, b, CR, LF, c the index 5 is the c, the first character of the third line, and
  the cursor is left behind it. The widget counts every line end as long as the first one:
  the wrapper's index is one of the text it was given, the widget's one of the text it
  made of it.
\<close>

theorem setValue_cursor_mixed_line_ends_counterexample:
  "position_of (js ''a'' @ [LF] @ js ''b'' @ [CR, LF] @ js ''c'') 5 = (2, 0) \<and>
   map_option cursor
     (editor (snd (setValue (js ''a'' @ [LF] @ js ''b'' @ [CR, LF] @ js ''c'') (Some 5)
                     example_editor))) = Some (2, 1)"
proof -
  have n5: "(5::nat) = Suc (Suc (Suc (Suc (Suc 0))))" by simp
  have "position_of (js ''a'' @ [LF] @ js ''b'' @ [CR, LF] @ js ''c'') 5 = (2, 0)"
    by (subst n5) (simp add: js_def is_break_def)
  moreover have "map_option cursor
     (editor (snd (setValue (js ''a'' @ [LF] @ js ''b'' @ [CR, LF] @ js ''c'') (Some 5)
                     example_editor))) = Some (2, 1)"
    by (simp add: eval_defs is_break_def)
  ultimately show ?thesis by simp
qed

text \<open>
  C4, amended: on a built wrapper, for every string whose line ends are all as long as its
  first one (all single CR or LF characters, or all CR LF), \<^verbatim>\<open>setValue(val, p)\<close> with
  \<open>0 \<le> p \<le> length val\<close> leaves the cursor at the start of the document for \<open>p = 0\<close>, at
  its end for \<open>p = length val\<close>, and at the row and column of the character index \<open>p\<close> in
  between; with the position omitted the cursor is at the end of the document. The start is
  the position of the index 0 and the end that of the index \<open>length val\<close>.
\<close>

theorem setValue_cursor:
  assumes "st = run acts (AceEditor opts b)" and "isBuilt st"
    and "0 \<le> p" and "p \<le> int (length val)" and "uniform_line_ends val"
  shows "\<exists>w w'. fst (setValue val (Some p) st) = Inr () \<and>
           editor (snd (setValue val (Some p) st)) = Some w \<and>
           doc_lines w = split_doc val \<and>
           cursor w =
             (if p = 0 then doc_start
              else if p = int (length val) then doc_end (doc_lines w)
              else position_of val (nat p)) \<and>
           cursor w = position_of val (nat p) \<and>
           fst (setValue val None st) = Inr () \<and>
           editor (snd (setValue val None st)) = Some w' \<and>
           doc_lines w' = split_doc val \<and>
           cursor w' = doc_end (doc_lines w') \<and>
           cursor w' = position_of val (length val)"
proof -
  from assms(1,2) have "built st" by (simp add: reachable_built)
  then obtain w sid d where
    f: "editor st = Some w" "session st = Some sid" "editorDom st = Some d"
    by (auto simp: built_def split: option.splits)
  from setValue_built [OF f, of val "Some p"] obtain n d' os ov where
    sv: "setValue val (Some p) st =
     (Inr (),
      st\<lparr>editor :=
           Some (let w' = (w_setValue val (if Some p = Some 0 then - 1 else 1) w)\<lparr>resizes := n\<rparr>
                 in case Some p of
                      None \<Rightarrow> w'
                    | Some q \<Rightarrow>
                        if 0 < q \<and> q < int (length val)
                        then (case indexToPosition (length (newLine w')) (doc_lines w') (nat q) of
                                (r, c) \<Rightarrow> moveCursorTo r c w')
                        else w'),
         editorDom := Some d', obs_saves := os, obs_value := ov\<rparr>)"
    by blast
  from setValue_built [OF f, of val None] obtain n2 d2 os2 ov2 where
    sn: "setValue val None st =
     (Inr (), st\<lparr>editor := Some ((w_setValue val 1 w)\<lparr>resizes := n2\<rparr>),
                 editorDom := Some d2, obs_saves := os2, obs_value := ov2\<rparr>)"
    by (auto simp: Let_def)
  have np: "nat p \<le> length val" using assms by simp
  from assms(5) have u: "ends_of_length (length (detectNewLine val)) val"
    by (simp add: uniform_line_ends_def)
  from indexToPosition_position_of [OF u detectNewLine_pos np] obtain r c where
    ip: "indexToPosition (length (detectNewLine val)) (split_doc val) (nat p) = (r, c)"
    and r: "r < length (split_doc val)"
    and po: "position_of val (nat p) = (r, min c (length (split_doc val ! r)))"
    by blast
  from r po have clip: "clipPosition (split_doc val) (r, c) = position_of val (nat p)"
    by (simp add: clipPosition_def)
  have omitted: "\<exists>w'. fst (setValue val None st) = Inr () \<and>
           editor (snd (setValue val None st)) = Some w' \<and>
           doc_lines w' = split_doc val \<and> cursor w' = doc_end (doc_lines w') \<and>
           cursor w' = position_of val (length val)"
    using sn by (simp add: w_setValue_def Let_def position_of_end)
  consider "p = 0" | "0 < p" "p < int (length val)" | "p = int (length val)" "0 < p"
    using assms by linarith
  then have "\<exists>w. fst (setValue val (Some p) st) = Inr () \<and>
           editor (snd (setValue val (Some p) st)) = Some w \<and>
           doc_lines w = split_doc val \<and>
           cursor w =
             (if p = 0 then doc_start
              else if p = int (length val) then doc_end (doc_lines w)
              else position_of val (nat p)) \<and>
           cursor w = position_of val (nat p)"
  proof cases
    case 1
    with sv show ?thesis by (simp add: w_setValue_def Let_def doc_start_def)
  next
    case 2
    with sv ip clip show ?thesis
      by (simp add: w_setValue_def Let_def moveCursorTo_def)
  next
    case 3
    with sv show ?thesis
      by (simp add: w_setValue_def Let_def position_of_end)
  qed
  with omitted show ?thesis by blast
qed

theorem setValue_cursor_witness:
  "isBuilt example_editor \<and>
   uniform_line_ends (js ''ab'' @ [CR, LF] @ js ''cd'') \<and>
   map_option cursor
     (editor (snd (setValue (js ''ab'' @ [CR, LF] @ js ''cd'') (Some 5) example_editor)))
     = Some (1, 1)"
proof -
  have len: "(0::int) \<le> 5" "5 \<le> int (length (js ''ab'' @ [CR, LF] @ js ''cd''))"
    by (simp_all add: js_def)
  have u: "uniform_line_ends (js ''ab'' @ [CR, LF] @ js ''cd'')"
    by (simp add: js_def uniform_line_ends_def is_break_def)
  have n5: "nat 5 = Suc (Suc (Suc (Suc (Suc 0))))" by simp
  have rc: "position_of (js ''ab'' @ [CR, LF] @ js ''cd'') (nat 5) = (1, 1)"
    by (subst n5) (simp add: js_def is_break_def)
  from setValue_cursor [OF example_editor_reached example_editor_built len u]
  obtain w where
    "editor (snd (setValue (js ''ab'' @ [CR, LF] @ js ''cd'') (Some 5) example_editor)) = Some w"
    and "cursor w = position_of (js ''ab'' @ [CR, LF] @ js ''cd'') (nat 5)"
    by blast
  with rc example_editor_built u show ?thesis by simp
qed

subsection \<open>Sizing\<close>

lemma settledSize_claimed:
  "settledSize st w =
     claimed_size (textPadding st) (useWrapMode w) (metrics_of st w) (calcSize st (fullDom st))"
  by (simp add: settledSize_def claimed_size_def desiredSize_def contentWidth_def
                getContentWidth_def getContentHeight_def Let_def)

text \<open>
  C7: on a built wrapper, \<^verbatim>\<open>resize\<close> returns normally and gives the element the size
  the claim describes: the desired size from the character measures and the line count (a
  width of 0 in wrap mode, otherwise screen width times character width plus the padding of
  10; a height of at least one line height, for a line height that is not negative), the
  sizing function applied to it, and, where the width it answers is smaller than the content
  width, the sizing function applied again to the desired size made 20 pixels taller.
\<close>

theorem resize_applies_claimed_size:
  assumes "st = run acts (AceEditor opts b)" and "isBuilt st"
  shows "\<exists>w d d'. editor st = Some w \<and> editorDom st = Some d \<and>
           fst (resize st) = Inr () \<and> editorDom (snd (resize st)) = Some d' \<and>
           style_width d' =
             (if width (claimed_size 10 (useWrapMode w) (metrics_of st w) (calcSize st (fullDom st))) = 0
              then Auto
              else Px (width (claimed_size 10 (useWrapMode w) (metrics_of st w)
                                (calcSize st (fullDom st))))) \<and>
           style_height d' =
             Px (height (claimed_size 10 (useWrapMode w) (metrics_of st w)
                           (calcSize st (fullDom st)))) \<and>
           (0 \<le> lineHeight (metrics_of st w) \<longrightarrow>
              lineHeight (metrics_of st w) \<le> height (desiredSize (textPadding st) w (metrics_of st w)))"
proof -
  from assms have "built st" by (simp add: reachable_built)
  then obtain w sid d where
    f: "editor st = Some w" "session st = Some sid" "editorDom st = Some d"
    by (auto simp: built_def split: option.splits)
  from assms(1) have pad: "textPadding st = 10" by (simp add: reachable_textPadding)
  have "0 \<le> lineHeight (metrics_of st w) \<Longrightarrow>
        lineHeight (metrics_of st w) \<le> real (max 1 (screenLength (metrics_of st w))) * lineHeight (metrics_of st w)"
  proof -
    assume nn: "0 \<le> lineHeight (metrics_of st w)"
    have "1 \<le> real (max 1 (screenLength (metrics_of st w)))" by simp
    with nn show ?thesis
      using mult_right_mono [of 1 "real (max 1 (screenLength (metrics_of st w)))"
                                "lineHeight (metrics_of st w)"]
      by simp
  qed
  then have h: "0 \<le> lineHeight (metrics_of st w) \<longrightarrow>
              lineHeight (metrics_of st w) \<le> height (desiredSize (textPadding st) w (metrics_of st w))"
    by (simp add: desiredSize_def getContentHeight_def)
  from resize_built [OF f] f h pad show ?thesis
    by (simp add: settledSize_claimed)
qed

theorem resize_applies_claimed_size_witness:
  "isBuilt example_clamped \<and>
   map_option style_width (editorDom (snd (resize example_clamped))) = Some (Px 100) \<and>
   map_option style_height (editorDom (snd (resize example_clamped))) = Some (Px 34)"
proof -
  have r: "example_clamped =
     run [BuildDom (Some (\<lambda>w. w\<lparr>useWrapMode := False\<rparr>)), OnAttach]
       (AceEditor
          (Some (example_options\<lparr>opt_calcSize := Some (\<lambda>el sz. sz\<lparr>width := min (width sz) 100\<rparr>)\<rparr>))
          example_browser)"
    by (simp add: example_clamped_def)
  have b: "isBuilt example_clamped"
    by (simp add: example_clamped_def eval_defs)
  have m: "map_option useWrapMode (editor example_clamped) = Some False"
    "map_option doc_lines (editor example_clamped) = Some [js ''a = 1'']"
    "metrics_of example_clamped = (\<lambda>w. \<lparr>screenWidth = 40, screenLength = length (doc_lines w),
                           characterWidth = 7, lineHeight = 14, clientWidth = 280\<rparr>)"
    "calcSize example_clamped = (\<lambda>el sz. sz\<lparr>width := min (width sz) 100\<rparr>)"
    by (simp_all add: example_clamped_def eval_defs)
  from resize_applies_claimed_size [OF r b]
  obtain w d' where "editor example_clamped = Some w"
    and "editorDom (snd (resize example_clamped)) = Some d'"
    and "style_width d' =
             (if width (claimed_size 10 (useWrapMode w) (metrics_of example_clamped w) (calcSize example_clamped (fullDom example_clamped))) = 0
              then Auto
              else Px (width (claimed_size 10 (useWrapMode w) (metrics_of example_clamped w)
                                (calcSize example_clamped (fullDom example_clamped)))))"
    and "style_height d' =
             Px (height (claimed_size 10 (useWrapMode w) (metrics_of example_clamped w)
                           (calcSize example_clamped (fullDom example_clamped))))"
    by blast
  with m b show ?thesis
    by (auto simp add: claimed_size_def Let_def)
qed

subsection \<open>The save command\<close>

text \<open>
  C2, as stated: with an observable bound, \<^verbatim>\<open>attachSaveCommand\<close> does not throw. It
  fails on a wrapper that has its observable and no widget yet: \<^verbatim>\<open>this.editor\<close> is
  \<^verbatim>\<open>null\<close> and the read of \<^verbatim>\<open>commands\<close> throws a TypeError.
\<close>

theorem attachSaveCommand_before_setup_counterexample:
  "observable (AceEditor (Some example_options) example_browser) \<noteq> None \<and>
   fst (attachSaveCommand (AceEditor (Some example_options) example_browser)) = Inl TypeError"
  by (simp add: attachSaveCommand_def AceEditor_def example_options_def)

text \<open>
  C2, amended: without a bound observable \<^verbatim>\<open>attachSaveCommand\<close> throws its error at once
  and leaves the state, and so the commands, as they were; with an observable bound and the
  widget set up it returns normally and the widget has the command \<^verbatim>\<open>saveFormula\<close>; with
  an observable bound and no widget yet it throws a TypeError.
\<close>

theorem attachSaveCommand_outcomes:
  "(observable st = None \<longrightarrow>
      attachSaveCommand st =
        (Inl (Error ''Cannot attach save command to editor with no bound observable''), st)) \<and>
   (observable st \<noteq> None \<and> isBuilt st \<longrightarrow>
      fst (attachSaveCommand st) = Inr () \<and>
      (\<exists>w. editor st = Some w \<and>
           editor (snd (attachSaveCommand st)) = Some (addCommand saveFormula w) \<and>
           saveFormula \<in> set (commands (addCommand saveFormula w)))) \<and>
   (observable st \<noteq> None \<and> \<not> isBuilt st \<longrightarrow> attachSaveCommand st = (Inl TypeError, st))"
  by (auto simp: attachSaveCommand_def isBuilt_def addCommand_def)

theorem attachSaveCommand_outcomes_witness:
  "observable (AceEditor None example_browser) = None \<and>
   attachSaveCommand (AceEditor None example_browser) =
     (Inl (Error ''Cannot attach save command to editor with no bound observable''),
      AceEditor None example_browser) \<and>
   observable example_editor \<noteq> None \<and> isBuilt example_editor \<and>
   fst (attachSaveCommand example_editor) = Inr ()"
proof -
  have a: "observable (AceEditor None example_browser) = None" by (simp add: AceEditor_def)
  have b: "observable example_editor \<noteq> None"
    using kept_run [of "AceEditor (Some example_options) example_browser" "[BuildDom None, OnAttach]"]
    by (simp add: example_editor_def kept_def AceEditor_def example_options_def)
  from attachSaveCommand_outcomes [of "AceEditor None example_browser"]
       attachSaveCommand_outcomes [of example_editor] a b example_editor_built
  show ?thesis by blast
qed


subsection \<open>Saving on blur\<close>

lemma blur_after_setup:
  assumes "editorDom X = Some d" "env_editor d = None" "setupCallback X = None"
    and "setup_widget X = (r, st)"
  shows "fst (blur st) = Inr () \<and>
         obs_saves (snd (blur st)) =
           obs_saves st @
             (if observable X \<noteq> None \<and> saveValueOnBlurEvent X then [getValue st] else []) \<and>
         is_string (getValue st) \<and>
         observable st = observable X \<and> saveValueOnBlurEvent st = saveValueOnBlurEvent X"
proof -
  from assms(1,2,4) have c: "configure (next_id X) d (new_widget (next_id X) (elem_id d))
           (X\<lparr>next_id := Suc (next_id X)\<rparr>) = (r, st)"
    by (simp add: setup_widget_def ace_edit_def)
  from configure_ok [of "next_id X" d "new_widget (next_id X) (elem_id d)"
                        "X\<lparr>next_id := Suc (next_id X)\<rparr>"] c assms(3)
  obtain w' where
    e: "editor st = Some w'"
    and b: "on_blur w' =
              on_blur (new_widget (next_id X) (elem_id d)) @
              (if observable X \<noteq> None \<and> saveValueOnBlurEvent X then [WriteObservable] else [])"
    by auto
  note f = setup_widget_fields [OF assms(1,2,4)]
  from e b f(2,3) show ?thesis
    by (simp add: blur_def getValue_def writeObservable_def setSaveValue_def new_widget_def
             split: option.splits)
qed

text \<open>
  C10: for every options object, and without one, once the element is built and the widget
  set up (by \<^verbatim>\<open>onAttach\<close> or by the timer), a blur pushes the current text to the
  observable exactly when an observable is bound and \<^verbatim>\<open>saveValueOnBlurEvent\<close> is not the
  boolean \<^verbatim>\<open>false\<close>; any other value of the option leaves the push in place.
\<close>

theorem save_on_blur:
  assumes "acts = [BuildDom None, OnAttach] \<or> acts = [BuildDom None, TimerFires (next_id b + 2)]"
    and "st = run acts (AceEditor opts b)"
  shows "fst (blur st) = Inr () \<and>
         obs_saves (snd (blur st)) =
           obs_saves st @
             (if (case opts of None \<Rightarrow> None | Some o' \<Rightarrow> opt_observable o') \<noteq> None \<and>
                 (case opts of None \<Rightarrow> True | Some o' \<Rightarrow> opt_saveValueOnBlurEvent o' \<noteq> JBool False)
              then [getValue st] else []) \<and>
         is_string (getValue st)"
proof -
  let ?st0 = "AceEditor opts b"
  let ?st1 = "buildDom None ?st0"
  let ?t = "next_id b + 2"
  let ?X = "if acts = [BuildDom None, OnAttach]
            then ?st1\<lparr>timers := removeAll ?t (timers ?st1), setupTimer := None\<rparr>
            else ?st1\<lparr>timers := removeAll ?t (timers ?st1)\<rparr>"
  have st: "st = snd (setup_widget ?X)"
    using assms by (auto simp: run_def onAttach_def timer_fires_def buildDom_def AceEditor_def)
  have d: "editorDom ?X =
             Some \<lparr>elem_id = next_id b, style_width = Unset, style_height = Unset,
                   env_editor = None\<rparr>"
    and cb: "setupCallback ?X = None"
    and ob: "observable ?X = (case opts of None \<Rightarrow> None | Some o' \<Rightarrow> opt_observable o')"
    and sv: "saveValueOnBlurEvent ?X =
               (case opts of None \<Rightarrow> True | Some o' \<Rightarrow> opt_saveValueOnBlurEvent o' \<noteq> JBool False)"
    by (simp_all add: buildDom_def AceEditor_def split: option.splits)
  obtain r where su: "setup_widget ?X = (r, st)" using st by (cases "setup_widget ?X") simp
  from blur_after_setup [OF d _ cb su] ob sv show ?thesis by simp
qed

theorem save_on_blur_witness:
  "obs_saves (snd (blur (example_flag (JNum 0)))) =
     obs_saves (example_flag (JNum 0)) @ [getValue (example_flag (JNum 0))] \<and>
   obs_saves (snd (blur (example_flag Null))) =
     obs_saves (example_flag Null) @ [getValue (example_flag Null)] \<and>
   obs_saves (snd (blur (example_flag Undefined))) =
     obs_saves (example_flag Undefined) @ [getValue (example_flag Undefined)] \<and>
   obs_saves (snd (blur (example_flag (JBool False)))) = obs_saves (example_flag (JBool False))"
  using save_on_blur [of "[BuildDom None, OnAttach]" example_browser "example_flag (JNum 0)"
                         "Some (example_options\<lparr>opt_saveValueOnBlurEvent := JNum 0\<rparr>)"]
        save_on_blur [of "[BuildDom None, OnAttach]" example_browser "example_flag Null"
                         "Some (example_options\<lparr>opt_saveValueOnBlurEvent := Null\<rparr>)"]
        save_on_blur [of "[BuildDom None, OnAttach]" example_browser "example_flag Undefined"
                         "Some (example_options\<lparr>opt_saveValueOnBlurEvent := Undefined\<rparr>)"]
        save_on_blur [of "[BuildDom None, OnAttach]" example_browser "example_flag (JBool False)"
                         "Some (example_options\<lparr>opt_saveValueOnBlurEvent := JBool False\<rparr>)"]
  by (simp add: example_flag_def example_options_def)


subsection \<open>Widgets and the observable over a wrapper's life\<close>

text \<open>
  C8, as stated: a wrapper owns at most one live widget at every point of its life. It
  fails where \<^verbatim>\<open>buildDom\<close> is called a second time, which its comment allows ("may be
  called multiple times by an instance"): each call makes a new element, the set-up makes a
  widget on it and registers it for disposal, and the first widget stays registered beside
  the second.
\<close>

theorem two_buildDom_two_widgets_counterexample:
  "live_widgets (run [BuildDom None, OnAttach, BuildDom None, OnAttach]
                   (AceEditor None example_browser)) = {4, 8} \<and>
   \<not> card (live_widgets (run [BuildDom None, OnAttach, BuildDom None, OnAttach]
                            (AceEditor None example_browser))) \<le> 1"
  by (simp add: eval_defs live_widgets_def)

text \<open>
  The timer of \<^verbatim>\<open>buildDom\<close> does not clear \<^verbatim>\<open>_setupTimer\<close> when it fires, so an
  \<^verbatim>\<open>onAttach\<close> after it runs \<^verbatim>\<open>_setup\<close> again, on the widget the element already has:
  there is still one widget, with its handlers and its subscription registered twice.
\<close>

lemma onAttach_after_timer_fired:
  "live_widgets (run [BuildDom None, TimerFires 3, OnAttach]
                   (AceEditor (Some example_options) example_browser)) = {4} \<and>
   map_option on_change
     (editor (run [BuildDom None, TimerFires 3, OnAttach]
                (AceEditor (Some example_options) example_browser))) = Some [Resize, Resize] \<and>
   subscriptions (run [BuildDom None, TimerFires 3, OnAttach]
                    (AceEditor (Some example_options) example_browser)) = [1, 1]"
  by (simp add: eval_defs live_widgets_def)

text \<open>
  C8, amended: at every point of its life a wrapper owns at most one live widget for each
  call of \<^verbatim>\<open>buildDom\<close> made so far; no action reassigns the observable; and an
  \<^verbatim>\<open>onAttach\<close> after the timer of \<^verbatim>\<open>buildDom\<close> has fired returns normally and
  initializes no second widget: the live widgets are those there were, and the widget in
  \<^verbatim>\<open>editor\<close> is the one it was.
\<close>

theorem one_widget_per_buildDom:
  "card (live_widgets (run acts (AceEditor opts b))) \<le>
     card (live_widgets (AceEditor opts b)) + buildDom_calls acts \<and>
   observable (run acts' st) = observable st \<and>
   isBuilt (snd (timer_fires (next_id st + 2) (buildDom cb st))) \<and>
   fst (onAttach (snd (timer_fires (next_id st + 2) (buildDom cb st)))) = Inr () \<and>
   live_widgets (snd (onAttach (snd (timer_fires (next_id st + 2) (buildDom cb st))))) =
     live_widgets (snd (timer_fires (next_id st + 2) (buildDom cb st))) \<and>
   map_option wid (editor (snd (onAttach (snd (timer_fires (next_id st + 2) (buildDom cb st)))))) =
     map_option wid (editor (snd (timer_fires (next_id st + 2) (buildDom cb st))))"
proof -
  have "widgets_bounded (card (live_widgets (AceEditor opts b))) (AceEditor opts b)"
    by (simp add: widgets_bounded_def AceEditor_def)
  from bounded_le [OF bounded_run [OF this, of acts]]
  have first: "card (live_widgets (run acts (AceEditor opts b))) \<le>
     card (live_widgets (AceEditor opts b)) + buildDom_calls acts" .
  have second: "observable (run acts' st) = observable st"
    using kept_run [of st acts'] by (simp add: kept_def)
  let ?t = "next_id st + 2"
  let ?d = "\<lparr>elem_id = next_id st, style_width = Unset, style_height = Unset, env_editor = None\<rparr>"
  let ?st0 = "buildDom cb st"
  let ?X = "?st0\<lparr>timers := removeAll ?t (timers ?st0)\<rparr>"
  have tf: "timer_fires ?t ?st0 = setup_widget ?X"
    by (simp add: timer_fires_def buildDom_def)
  have dX: "editorDom ?X = Some ?d" by (simp add: buildDom_def)
  obtain r1 st1 where s1: "setup_widget ?X = (r1, st1)" by (cases "setup_widget ?X")
  note f1 = setup_widget_fields [OF dX _ s1, simplified]
  have tX: "setupTimer ?X = Some ?t" "next_id ?X = next_id st + 3"
    by (simp_all add: buildDom_def)
  from f1(6) tX have t1: "setupTimer st1 = Some ?t" by simp
  from f1(11) obtain w1 where e1: "editor st1 = Some w1" by auto
  from f1(12) tX obtain d1 where d1: "editorDom st1 = Some d1"
    and env1: "env_editor d1 = Some (next_id st + 3)"
    by (cases "editorDom st1") auto
  from f1(7) tX have in1: "next_id st + 3 \<in> live_widgets st1" by (simp add: live_widgets_def)
  let ?Y = "st1\<lparr>timers := removeAll ?t (timers st1), setupTimer := None\<rparr>"
  have oa: "onAttach st1 = setup_widget ?Y" using t1 by (simp add: onAttach_def)
  have sy: "setup_widget ?Y = configure (next_id st + 3) d1 w1 ?Y"
    using d1 env1 e1 by (simp add: setup_widget_def ace_edit_def)
  obtain r2 st2 where s2: "configure (next_id st + 3) d1 w1 ?Y = (r2, st2)"
    by (cases "configure (next_id st + 3) d1 w1 ?Y")
  note f2 = configure_fields [OF s2]
  from f2(7) in1 have live: "live_widgets st2 = live_widgets st1"
    by (auto simp: live_widgets_def)
  from configure_ok [of "next_id st + 3" d1 w1 ?Y] s2 f1(10) obtain w2 where
    "editor st2 = Some w2" "wid w2 = wid w1" by auto
  with e1 have same: "map_option wid (editor st2) = map_option wid (editor st1)" by simp
  from tf s1 oa sy s2 f2(1) live same e1 first second show ?thesis
    by (simp add: isBuilt_def)
qed

theorem one_widget_per_buildDom_witness:
  "card (live_widgets (run [BuildDom None, TimerFires 3, OnAttach, Blur]
                         (AceEditor (Some example_options) example_browser))) \<le> 1 \<and>
   observable (run [BuildDom None, OnAttach, SetValue (js ''b'') None, Blur, AttachSaveCommand]
                 (AceEditor (Some example_options) example_browser)) = Some 7 \<and>
   fst (onAttach (snd (timer_fires 3 (buildDom None (AceEditor (Some example_options) example_browser)))))
     = Inr ()"
proof -
  have c: "buildDom_calls [BuildDom None, TimerFires 3, OnAttach, Blur] = 1" by simp
  have l: "card (live_widgets (AceEditor (Some example_options) example_browser)) = 0"
    by (simp add: live_widgets_def AceEditor_def example_browser_def)
  have n: "next_id (AceEditor (Some example_options) example_browser) + 2 = 3"
    by (simp add: AceEditor_def example_browser_def)
  have ob: "observable (AceEditor (Some example_options) example_browser) = Some 7"
    by (simp add: AceEditor_def example_options_def)
  note t = one_widget_per_buildDom
          [of "[BuildDom None, TimerFires 3, OnAttach, Blur]" "Some example_options" example_browser
              "[BuildDom None, OnAttach, SetValue (js ''b'') None, Blur, AttachSaveCommand]"
              "AceEditor (Some example_options) example_browser" None]
  from t [unfolded n] c l ob show ?thesis by simp
qed

end
